theory Spec2Isabelle
  imports Main "HOL-Library.Word"
begin

unbundle bit_operations_syntax

section \<open>Machine types and failures\<close>

text \<open>
  The header \<^verbatim>\<open>js/vm/JSScript.h\<close> is embedded for a 64-bit build: \<^verbatim>\<open>uint32_t\<close>
  counters are 32-bit words (their arithmetic wraps), \<^verbatim>\<open>size_t\<close> and pointers are 64-bit
  words, and the null pointer is the word 0.

  A \<^verbatim>\<open>MOZ_ASSERT\<close> whose condition is false is the failure \<open>AssertionFailure\<close>, a
  \<^verbatim>\<open>MOZ_CRASH\<close> is the failure \<open>Crash\<close>: a member function that asserts or crashes
  returns \<open>error + result\<close> and \<open>Inl\<close> carries the failure.

  An Isabelle name cannot end in an underscore, so a data member \<^verbatim>\<open>name_\<close> of the
  source is the record field \<open>name'\<close>.
\<close>

type_synonym uint8_t = "8 word"
type_synonym uint32_t = "32 word"
type_synonym size_t = "64 word"
type_synonym ptr = "64 word"

datatype error =
    AssertionFailure
  | Crash
  | UseAfterFree
  | OrderingError
  | AllocError

definition nullptr :: ptr where
  "nullptr = 0"

section \<open>Reference counts of ScriptSource and SharedScriptData\<close>

text \<open>
  An object that \<^verbatim>\<open>js_delete(this)\<close> or \<^verbatim>\<open>js_free(this)\<close> has destroyed is \<open>Destroyed\<close>;
  until then it is \<open>Alive\<close> with its current fields.
\<close>

datatype 'a released = Alive 'a | Destroyed

text \<open>
  The variant \<^verbatim>\<open>SourceType\<close>, that is \<^verbatim>\<open>mozilla::Variant<Compressed<Utf8Unit>,
  Uncompressed<Utf8Unit>, Compressed<char16_t>, Uncompressed<char16_t>, Missing, BinAST>\<close>.
  A \<^verbatim>\<open>SharedImmutableString\<close> is immutable and shared by content, so it is modelled by
  its units; compressed text is single-byte whatever the unit of the original text, and
  carries the length of the uncompressed text.
\<close>

type_synonym SharedImmutableString = "8 word list"
type_synonym SharedImmutableTwoByteString = "16 word list"

datatype SourceType =
    CompressedUtf8 SharedImmutableString nat
  | UncompressedUtf8 SharedImmutableString
  | CompressedUtf16 SharedImmutableString nat
  | UncompressedUtf16 SharedImmutableTwoByteString
  | Missing
  | BinAST SharedImmutableString

text \<open>
  \<^verbatim>\<open>PinnedUnits<Unit>\<close>: the pointer \<^verbatim>\<open>units_\<close> that the pin hands out. \<open>UnitsIn rep begin\<close>
  points \<open>begin\<close> units into the text that the source held as \<open>rep\<close> when the pin was
  taken: into the source's own string when \<open>rep\<close> is uncompressed, into a decompressed
  chunk kept alive by the pin's holder when \<open>rep\<close> is compressed.
\<close>

datatype units_ptr = UnitsIn SourceType nat

record PinnedUnits =
  units' :: units_ptr
  pin_len :: nat

text \<open>
  \<^verbatim>\<open>class ScriptSource\<close>: the reference count, the variant \<^verbatim>\<open>data\<close>, the stack of
  outstanding pins (a linked list through \<^verbatim>\<open>prev_\<close>; the head of the list is the top of
  the stack, its last element the bottom) and the pending compressed text. The members
  that no embedded function reads or writes (file name, URLs, introduction data, XDR
  encoder) are left out.
\<close>

record ScriptSource =
  refs :: uint32_t
  data :: SourceType
  pinnedUnitsStack' :: "PinnedUnits list"
  pendingCompressed' :: "SourceType option"

text \<open>\<^verbatim>\<open>explicit ScriptSource()\<close>: no reference, no text, no pin.\<close>

definition ScriptSource_new :: ScriptSource where
  "ScriptSource_new =
     \<lparr>refs = 0, data = Missing, pinnedUnitsStack' = [], pendingCompressed' = None\<rparr>"

text \<open>\<^verbatim>\<open>void incref() { refs++; }\<close>\<close>

definition incref :: "ScriptSource \<Rightarrow> ScriptSource" where
  "incref src = src\<lparr>refs := refs src + 1\<rparr>"

text \<open>
  \<^verbatim>\<open>void decref() { MOZ_ASSERT(refs != 0); if (--refs == 0) { js_delete(this); } }\<close>
\<close>

definition decref :: "ScriptSource \<Rightarrow> error + ScriptSource released" where
  "decref src =
     (if refs src = 0 then Inl AssertionFailure
      else (let src' = src\<lparr>refs := refs src - 1\<rparr>
            in if refs src' = 0 then Inr Destroyed else Inr (Alive src')))"

text \<open>
  \<^verbatim>\<open>class SharedScriptData\<close>: reference count, the three lengths and the payload
  \<^verbatim>\<open>data_\<close>. The payload is a flexible array read through \<^verbatim>\<open>data()\<close> as bytes; it is the
  function from a byte offset to the byte stored there.
\<close>

record SharedScriptData =
  refCount' :: uint32_t
  natoms' :: uint32_t
  codeLength' :: uint32_t
  noteLength' :: uint32_t
  data' :: "nat \<Rightarrow> uint8_t"

definition refCount :: "SharedScriptData \<Rightarrow> uint32_t" where
  "refCount d = refCount' d"

text \<open>\<^verbatim>\<open>void incRefCount() { refCount_++; }\<close>\<close>

definition incRefCount :: "SharedScriptData \<Rightarrow> SharedScriptData" where
  "incRefCount d = d\<lparr>refCount' := refCount' d + 1\<rparr>"

text \<open>
  \<^verbatim>\<open>void decRefCount() { MOZ_ASSERT(refCount_ != 0); uint32_t remain = --refCount_;
  if (remain == 0) { js_free(this); } }\<close>
\<close>

definition decRefCount :: "SharedScriptData \<Rightarrow> error + SharedScriptData released" where
  "decRefCount d =
     (if refCount' d = 0 then Inl AssertionFailure
      else (let d' = d\<lparr>refCount' := refCount' d - 1\<rparr>;
                remain = refCount' d'
            in if remain = 0 then Inr Destroyed else Inr (Alive d')))"

text \<open>
  The life of one instance: holders attach (take a reference) and release (drop it).
  An operation on a destroyed instance would dereference freed memory; a second release
  of it would free it twice. Both are the failure \<open>UseAfterFree\<close>.
\<close>

datatype ref_op = Attach | Release

fun ref_step ::
  "('a \<Rightarrow> 'a) \<Rightarrow> ('a \<Rightarrow> error + 'a released) \<Rightarrow> ref_op \<Rightarrow> 'a released \<Rightarrow> error + 'a released"
where
  "ref_step inc dec opr Destroyed = Inl UseAfterFree"
| "ref_step inc dec Attach (Alive x) = Inr (Alive (inc x))"
| "ref_step inc dec Release (Alive x) = dec x"

fun ref_run ::
  "('a \<Rightarrow> 'a) \<Rightarrow> ('a \<Rightarrow> error + 'a released) \<Rightarrow> ref_op list \<Rightarrow> 'a released \<Rightarrow> error + 'a released"
where
  "ref_run inc dec [] st = Inr st"
| "ref_run inc dec (opr # ops) st =
     (case ref_step inc dec opr st of
        Inl e \<Rightarrow> Inl e
      | Inr st' \<Rightarrow> ref_run inc dec ops st')"

text \<open>
  The number of holders after a run that starts with \<open>n\<close> holders, and the discipline
  of holders: only a holder releases, and when the last holder has released nobody has
  a pointer to the instance any more, so the run ends there.
\<close>

fun outstanding :: "nat \<Rightarrow> ref_op list \<Rightarrow> nat" where
  "outstanding n [] = n"
| "outstanding n (Attach # ops) = outstanding (Suc n) ops"
| "outstanding n (Release # ops) = outstanding (n - 1) ops"

fun holders_ok :: "nat \<Rightarrow> ref_op list \<Rightarrow> bool" where
  "holders_ok n [] = True"
| "holders_ok n (Attach # ops) = holders_ok (Suc n) ops"
| "holders_ok n (Release # ops) =
     (0 < n \<and> (if n = 1 then ops = [] else holders_ok (n - 1) ops))"

section \<open>ScriptSourceHolder\<close>

text \<open>
  Several holders may point to one ScriptSource, so the sources live in a store from
  addresses to objects; an address with no object is freed memory.
\<close>

type_synonym source_store = "ptr \<rightharpoonup> ScriptSource"

text \<open>\<^verbatim>\<open>p->incref()\<close> and \<^verbatim>\<open>p->decref()\<close> through a pointer into the store.\<close>

definition incref_at :: "ptr \<Rightarrow> source_store \<Rightarrow> error + source_store" where
  "incref_at p st =
     (case st p of
        None \<Rightarrow> Inl UseAfterFree
      | Some src \<Rightarrow> Inr (st(p \<mapsto> incref src)))"

definition decref_at :: "ptr \<Rightarrow> source_store \<Rightarrow> error + source_store" where
  "decref_at p st =
     (case st p of
        None \<Rightarrow> Inl UseAfterFree
      | Some src \<Rightarrow>
          (case decref src of
             Inl e \<Rightarrow> Inl e
           | Inr Destroyed \<Rightarrow> Inr (st(p := None))
           | Inr (Alive src') \<Rightarrow> Inr (st(p \<mapsto> src'))))"

text \<open>\<^verbatim>\<open>class ScriptSourceHolder { ScriptSource* ss; ... }\<close>\<close>

record ScriptSourceHolder =
  ss :: ptr

text \<open>
  \<^verbatim>\<open>void reset(ScriptSource* newss) {
      // incref before decref just in case ss == newss.
      if (newss) { newss->incref(); }
      if (ss) { ss->decref(); }
      ss = newss; }\<close>
\<close>

definition reset ::
  "ScriptSourceHolder \<Rightarrow> ptr \<Rightarrow> source_store \<Rightarrow> error + (ScriptSourceHolder \<times> source_store)"
where
  "reset holder newss st =
     (case (if newss \<noteq> nullptr then incref_at newss st else Inr st) of
        Inl e \<Rightarrow> Inl e
      | Inr st1 \<Rightarrow>
          (case (if ss holder \<noteq> nullptr then decref_at (ss holder) st1 else Inr st1) of
             Inl e \<Rightarrow> Inl e
           | Inr st2 \<Rightarrow> Inr (holder\<lparr>ss := newss\<rparr>, st2)))"

section \<open>SharedScriptData and the script data table\<close>

text \<open>
  \<^verbatim>\<open>size_t dataLength() const
      { return (natoms_ * sizeof(GCPtrAtom)) + codeLength_ + noteLength_; }\<close>
  The size of a \<^verbatim>\<open>GCPtrAtom\<close> is not fixed by this header; it is the parameter
  \<open>sizeof_GCPtrAtom\<close>. The sum is computed in \<^verbatim>\<open>size_t\<close>.
\<close>

definition dataLength :: "size_t \<Rightarrow> SharedScriptData \<Rightarrow> size_t" where
  "dataLength sizeof_GCPtrAtom d =
     (ucast (natoms' d) * sizeof_GCPtrAtom) + ucast (codeLength' d) + ucast (noteLength' d)"

definition natoms :: "SharedScriptData \<Rightarrow> uint32_t" where
  "natoms d = natoms' d"

definition codeLength :: "SharedScriptData \<Rightarrow> uint32_t" where
  "codeLength d = codeLength' d"

definition numNotes :: "SharedScriptData \<Rightarrow> uint32_t" where
  "numNotes d = noteLength' d"

text \<open>
  \<^verbatim>\<open>mozilla::ArrayEqual<T>(a, b, n)\<close> is \<^verbatim>\<open>std::equal(a, a + n, b)\<close>: it walks both
  arrays from index 0 and stops at the first difference.
\<close>

function ArrayEqual_from :: "nat \<Rightarrow> (nat \<Rightarrow> 'a) \<Rightarrow> (nat \<Rightarrow> 'a) \<Rightarrow> nat \<Rightarrow> bool" where
  "ArrayEqual_from i a b n =
     (if i < n then (if a i \<noteq> b i then False else ArrayEqual_from (Suc i) a b n) else True)"
  by pat_completeness auto
termination
  by (relation "measure (\<lambda>(i, a, b, n). n - i)") auto

declare ArrayEqual_from.simps [simp del]

definition ArrayEqual :: "(nat \<Rightarrow> 'a) \<Rightarrow> (nat \<Rightarrow> 'a) \<Rightarrow> nat \<Rightarrow> bool" where
  "ArrayEqual a b n = ArrayEqual_from 0 a b n"

text \<open>
  \<^verbatim>\<open>ScriptBytecodeHasher::Lookup\<close>: the block that is looked up, and its hash.
\<close>

record Lookup =
  scriptData :: SharedScriptData
  hash :: uint32_t

text \<open>
  \<^verbatim>\<open>static bool match(SharedScriptData* entry, const Lookup& lookup) {
      const SharedScriptData* data = lookup.scriptData;
      if (entry->natoms() != data->natoms()) { return false; }
      if (entry->codeLength() != data->codeLength()) { return false; }
      if (entry->numNotes() != data->numNotes()) { return false; }
      return mozilla::ArrayEqual<uint8_t>(entry->data(), data->data(), data->dataLength()); }\<close>
\<close>

definition ScriptBytecodeHasher_match :: "size_t \<Rightarrow> SharedScriptData \<Rightarrow> Lookup \<Rightarrow> bool" where
  "ScriptBytecodeHasher_match sizeof_GCPtrAtom entry lookup =
     (let d = scriptData lookup
      in if natoms entry \<noteq> natoms d then False
         else if codeLength entry \<noteq> codeLength d then False
         else if numNotes entry \<noteq> numNotes d then False
         else ArrayEqual (data' entry) (data' d) (unat (dataLength sizeof_GCPtrAtom d)))"

text \<open>
  The script data table (\<^verbatim>\<open>ScriptDataTable = HashSet<SharedScriptData*, ScriptBytecodeHasher>\<close>)
  holds pointers to blocks; the blocks live in a store from addresses to objects. The
  entry that a lookup finds is one that \<open>ScriptBytecodeHasher_match\<close> accepts; the spec
  has the table "keyed by structural equality (atom count, lengths, and byte-for-byte
  payload match)", so the hash of a lookup only narrows the search and \<open>match\<close> does
  not read it.
\<close>

type_synonym data_store = "ptr \<rightharpoonup> SharedScriptData"

record ScriptDataTable =
  blocks :: data_store
  entries :: "ptr list"

definition matches_at :: "size_t \<Rightarrow> data_store \<Rightarrow> SharedScriptData \<Rightarrow> ptr \<Rightarrow> bool" where
  "matches_at sizeof_GCPtrAtom st cand e =
     (case st e of
        None \<Rightarrow> False
      | Some entry \<Rightarrow>
          ScriptBytecodeHasher_match sizeof_GCPtrAtom entry \<lparr>scriptData = cand, hash = 0\<rparr>)"

text \<open>
  Modelled from the spec: the interning function (\<^verbatim>\<open>JSScript::shareScriptData\<close>), whose
  body is not in this header. The spec: "\<^verbatim>\<open>intern(rawBlock) -> sharedRef\<close> looks up
  structural match in the process-wide table; on hit, increments the match's reference
  count and discards the candidate; on miss, inserts the candidate and returns a
  reference to it", and "each referencing Compiled Script holds one reference, plus one
  held by the interning table itself while registered". The candidate is the block at
  address \<open>cand\<close>; the result is the address of the shared block and the new table.
\<close>

definition intern :: "size_t \<Rightarrow> ptr \<Rightarrow> ScriptDataTable \<Rightarrow> error + (ptr \<times> ScriptDataTable)" where
  "intern sizeof_GCPtrAtom cand t =
     (case blocks t cand of
        None \<Rightarrow> Inl UseAfterFree
      | Some c \<Rightarrow>
          (case find (matches_at sizeof_GCPtrAtom (blocks t) c) (entries t) of
             Some e \<Rightarrow>
               (case blocks t e of
                  None \<Rightarrow> Inl UseAfterFree
                | Some entry \<Rightarrow>
                    Inr (e, t\<lparr>blocks := (blocks t)(cand := None, e \<mapsto> incRefCount entry)\<rparr>))
           | None \<Rightarrow>
               Inr (cand, t\<lparr>blocks := (blocks t)(cand \<mapsto> incRefCount c),
                             entries := entries t @ [cand]\<rparr>)))"

text \<open>
  Two blocks are structurally identical when their three lengths agree and their
  payloads agree on the first \<open>dataLength\<close> bytes. The table is deduplicated when its
  entries are distinct live blocks no two of which are structurally identical.
\<close>

definition structurally_identical :: "size_t \<Rightarrow> SharedScriptData \<Rightarrow> SharedScriptData \<Rightarrow> bool" where
  "structurally_identical sizeof_GCPtrAtom a b =
     (natoms' a = natoms' b \<and> codeLength' a = codeLength' b \<and> noteLength' a = noteLength' b \<and>
      (\<forall>i < unat (dataLength sizeof_GCPtrAtom b). data' a i = data' b i))"

definition deduplicated :: "size_t \<Rightarrow> ScriptDataTable \<Rightarrow> bool" where
  "deduplicated sizeof_GCPtrAtom t =
     (distinct (entries t) \<and>
      (\<forall>x \<in> set (entries t). \<forall>y \<in> set (entries t).
         (case (blocks t x, blocks t y) of
            (Some a, Some b) \<Rightarrow> structurally_identical sizeof_GCPtrAtom a b \<longrightarrow> x = y
          | _ \<Rightarrow> False)))"

section \<open>JSScript\<close>

text \<open>
  The sentinel values of the JIT slots:
  \<^verbatim>\<open># define ION_DISABLED_SCRIPT ((js::jit::IonScript*)0x1)\<close>,
  \<^verbatim>\<open># define ION_COMPILING_SCRIPT ((js::jit::IonScript*)0x2)\<close>,
  \<^verbatim>\<open># define ION_PENDING_SCRIPT ((js::jit::IonScript*)0x3)\<close>,
  \<^verbatim>\<open># define BASELINE_DISABLED_SCRIPT ((js::jit::BaselineScript*)0x1)\<close>.
\<close>

definition ION_DISABLED_SCRIPT :: ptr where
  "ION_DISABLED_SCRIPT = 1"

definition ION_COMPILING_SCRIPT :: ptr where
  "ION_COMPILING_SCRIPT = 2"

definition ION_PENDING_SCRIPT :: ptr where
  "ION_PENDING_SCRIPT = 3"

definition BASELINE_DISABLED_SCRIPT :: ptr where
  "BASELINE_DISABLED_SCRIPT = 1"

text \<open>
  \<^verbatim>\<open>enum ArrayKind { CONSTS, OBJECTS, TRYNOTES, SCOPENOTES, ARRAY_KIND_BITS }\<close>: the four
  kinds of optional array, with their enumerator values; \<^verbatim>\<open>ARRAY_KIND_BITS\<close> is 4.
\<close>

datatype ArrayKind = CONSTS | OBJECTS | TRYNOTES | SCOPENOTES

fun ArrayKind_value :: "ArrayKind \<Rightarrow> nat" where
  "ArrayKind_value CONSTS = 0"
| "ArrayKind_value OBJECTS = 1"
| "ArrayKind_value TRYNOTES = 2"
| "ArrayKind_value SCOPENOTES = 3"

text \<open>
  \<^verbatim>\<open>struct BitFields\<close>: \<^verbatim>\<open>uint8_t hasArrayBits_ : ARRAY_KIND_BITS\<close> is a 4-bit word, every
  other bit-field is a \<^verbatim>\<open>bool\<close>.
\<close>

record BitFields =
  hasArrayBits' :: "4 word"
  noScriptRval' :: bool
  strict' :: bool
  explicitUseStrict' :: bool
  hasNonSyntacticScope' :: bool
  selfHosted' :: bool
  bindingsAccessedDynamically' :: bool
  funHasExtensibleScope' :: bool
  funHasAnyAliasedFormal' :: bool
  warnedAboutUndefinedProp' :: bool
  hasSingletons' :: bool
  treatAsRunOnce' :: bool
  hasRunOnce' :: bool
  hasBeenCloned' :: bool
  isActiveEval' :: bool
  isCachedEval' :: bool
  isLikelyConstructorWrapper' :: bool
  failedBoundsCheck' :: bool
  failedShapeGuard' :: bool
  hadFrequentBailouts' :: bool
  hadOverflowBailout' :: bool
  uninlineable' :: bool
  invalidatedIdempotentCache' :: bool
  failedLexicalCheck' :: bool
  hasScriptCounts' :: bool
  hasDebugScript' :: bool
  hasFreezeConstraints' :: bool
  argsHasVarBinding' :: bool
  needsArgsAnalysis' :: bool
  needsArgsObj' :: bool
  functionHasThisBinding' :: bool
  functionHasExtraBodyVarScope' :: bool
  hasMappedArgsObj' :: bool
  typesGeneration' :: bool
  doNotRelazify' :: bool
  hasInnerFunctions' :: bool
  needsHomeObject' :: bool
  isDerivedClassConstructor' :: bool
  isDefaultClassConstructor' :: bool
  isGenerator' :: bool
  isAsync' :: bool
  hasRest' :: bool
  hideScriptFromDebugger' :: bool

text \<open>
  \<^verbatim>\<open>class JSScript\<close>: the pointers \<^verbatim>\<open>types_\<close>, \<^verbatim>\<open>ion\<close>, \<^verbatim>\<open>baseline\<close> and \<^verbatim>\<open>lazyScript\<close>
  and the bit-fields. The members that no embedded function reads or writes (the entry
  points, the script data and source object, the 32-bit and 16-bit counters and
  offsets) are left out.
\<close>

record JSScript =
  types' :: ptr
  ion :: ptr
  baseline :: ptr
  lazyScript :: ptr
  bitFields' :: BitFields

text \<open>
  A script as its constructor leaves it: the pointer members have the initializer
  \<^verbatim>\<open>= nullptr\<close>, and the bit-fields are "braced-init to all zeroes in the JSScript
  constructor".
\<close>

definition BitFields_zero :: BitFields where
  "BitFields_zero =
     \<lparr>hasArrayBits' = 0, noScriptRval' = False, strict' = False, explicitUseStrict' = False,
      hasNonSyntacticScope' = False, selfHosted' = False, bindingsAccessedDynamically' = False,
      funHasExtensibleScope' = False, funHasAnyAliasedFormal' = False,
      warnedAboutUndefinedProp' = False, hasSingletons' = False, treatAsRunOnce' = False,
      hasRunOnce' = False, hasBeenCloned' = False, isActiveEval' = False, isCachedEval' = False,
      isLikelyConstructorWrapper' = False, failedBoundsCheck' = False, failedShapeGuard' = False,
      hadFrequentBailouts' = False, hadOverflowBailout' = False, uninlineable' = False,
      invalidatedIdempotentCache' = False, failedLexicalCheck' = False, hasScriptCounts' = False,
      hasDebugScript' = False, hasFreezeConstraints' = False, argsHasVarBinding' = False,
      needsArgsAnalysis' = False, needsArgsObj' = False, functionHasThisBinding' = False,
      functionHasExtraBodyVarScope' = False, hasMappedArgsObj' = False, typesGeneration' = False,
      doNotRelazify' = False, hasInnerFunctions' = False, needsHomeObject' = False,
      isDerivedClassConstructor' = False, isDefaultClassConstructor' = False,
      isGenerator' = False, isAsync' = False, hasRest' = False,
      hideScriptFromDebugger' = False\<rparr>"

definition JSScript_new :: JSScript where
  "JSScript_new =
     \<lparr>types' = nullptr, ion = nullptr, baseline = nullptr, lazyScript = nullptr,
      bitFields' = BitFields_zero\<rparr>"

subsection \<open>Flag accessors\<close>

definition selfHosted :: "JSScript \<Rightarrow> bool" where
  "selfHosted s = selfHosted' (bitFields' s)"

definition hasRunOnce :: "JSScript \<Rightarrow> bool" where
  "hasRunOnce s = hasRunOnce' (bitFields' s)"

definition isGenerator :: "JSScript \<Rightarrow> bool" where
  "isGenerator s = isGenerator' (bitFields' s)"

definition isAsync :: "JSScript \<Rightarrow> bool" where
  "isAsync s = isAsync' (bitFields' s)"

definition isDefaultClassConstructor :: "JSScript \<Rightarrow> bool" where
  "isDefaultClassConstructor s = isDefaultClassConstructor' (bitFields' s)"

definition hasInnerFunctions :: "JSScript \<Rightarrow> bool" where
  "hasInnerFunctions s = hasInnerFunctions' (bitFields' s)"

definition hideScriptFromDebugger :: "JSScript \<Rightarrow> bool" where
  "hideScriptFromDebugger s = hideScriptFromDebugger' (bitFields' s)"

text \<open>\<^verbatim>\<open>bool hasAnyBreakpointsOrStepMode() { return bitFields_.hasDebugScript_; }\<close>\<close>

definition hasAnyBreakpointsOrStepMode :: "JSScript \<Rightarrow> bool" where
  "hasAnyBreakpointsOrStepMode s = hasDebugScript' (bitFields' s)"

subsection \<open>The eval cache flags\<close>

definition isActiveEval :: "JSScript \<Rightarrow> bool" where
  "isActiveEval s = isActiveEval' (bitFields' s)"

definition isCachedEval :: "JSScript \<Rightarrow> bool" where
  "isCachedEval s = isCachedEval' (bitFields' s)"

text \<open>
  \<^verbatim>\<open>void cacheForEval() {
      MOZ_ASSERT(isActiveEval());
      MOZ_ASSERT(!isCachedEval());
      bitFields_.isActiveEval_ = false;
      bitFields_.isCachedEval_ = true;
      bitFields_.hasRunOnce_ = false; }\<close>
\<close>

definition cacheForEval :: "JSScript \<Rightarrow> error + JSScript" where
  "cacheForEval s =
     (if \<not> isActiveEval s then Inl AssertionFailure
      else if \<not> (\<not> isCachedEval s) then Inl AssertionFailure
      else Inr (s\<lparr>bitFields' := (bitFields' s)\<lparr>isActiveEval' := False, isCachedEval' := True,
                                                  hasRunOnce' := False\<rparr>\<rparr>))"

text \<open>
  \<^verbatim>\<open>void uncacheForEval() {
      MOZ_ASSERT(isCachedEval());
      MOZ_ASSERT(!isActiveEval());
      bitFields_.isCachedEval_ = false;
      bitFields_.isActiveEval_ = true; }\<close>
\<close>

definition uncacheForEval :: "JSScript \<Rightarrow> error + JSScript" where
  "uncacheForEval s =
     (if \<not> isCachedEval s then Inl AssertionFailure
      else if \<not> (\<not> isActiveEval s) then Inl AssertionFailure
      else Inr (s\<lparr>bitFields' := (bitFields' s)\<lparr>isCachedEval' := False, isActiveEval' := True\<rparr>\<rparr>))"

text \<open>\<^verbatim>\<open>void setActiveEval() { bitFields_.isActiveEval_ = true; }\<close>\<close>

definition setActiveEval :: "JSScript \<Rightarrow> JSScript" where
  "setActiveEval s = s\<lparr>bitFields' := (bitFields' s)\<lparr>isActiveEval' := True\<rparr>\<rparr>"

text \<open>
  The three member functions that write the eval cache flags, as operations, and a run
  of them; a failed assertion ends the run.
\<close>

datatype eval_op = SetActiveEval | CacheForEval | UncacheForEval

fun eval_step :: "eval_op \<Rightarrow> JSScript \<Rightarrow> error + JSScript" where
  "eval_step SetActiveEval s = Inr (setActiveEval s)"
| "eval_step CacheForEval s = cacheForEval s"
| "eval_step UncacheForEval s = uncacheForEval s"

fun eval_run :: "eval_op list \<Rightarrow> JSScript \<Rightarrow> error + JSScript" where
  "eval_run [] s = Inr s"
| "eval_run (opr # ops) s =
     (case eval_step opr s of
        Inl e \<Rightarrow> Inl e
      | Inr s' \<Rightarrow> eval_run ops s')"

text \<open>
  The two flags are exclusive when they are not both set. A run is disciplined when it
  applies \<open>setActiveEval\<close> only to a script that is not in the eval cache.
\<close>

definition eval_flags_exclusive :: "JSScript \<Rightarrow> bool" where
  "eval_flags_exclusive s = (\<not> (isActiveEval s \<and> isCachedEval s))"

fun disciplined :: "eval_op list \<Rightarrow> JSScript \<Rightarrow> bool" where
  "disciplined [] s = True"
| "disciplined (opr # ops) s =
     ((opr = SetActiveEval \<longrightarrow> \<not> isCachedEval s) \<and>
      (case eval_step opr s of
         Inl e \<Rightarrow> True
       | Inr s' \<Rightarrow> disciplined ops s'))"

subsection \<open>The JIT slots\<close>

text \<open>
  \<^verbatim>\<open>bool hasIonScript() const {
      bool res = ion && ion != ION_DISABLED_SCRIPT && ion != ION_COMPILING_SCRIPT &&
                        ion != ION_PENDING_SCRIPT;
      MOZ_ASSERT_IF(res, baseline);
      return res; }\<close>
\<close>

definition hasIonScript :: "JSScript \<Rightarrow> error + bool" where
  "hasIonScript s =
     (let res = (ion s \<noteq> nullptr \<and> ion s \<noteq> ION_DISABLED_SCRIPT \<and>
                 ion s \<noteq> ION_COMPILING_SCRIPT \<and> ion s \<noteq> ION_PENDING_SCRIPT)
      in if \<not> (res \<longrightarrow> baseline s \<noteq> nullptr) then Inl AssertionFailure else Inr res)"

text \<open>\<^verbatim>\<open>bool hasAnyIonScript() const { return hasIonScript(); }\<close>\<close>

definition hasAnyIonScript :: "JSScript \<Rightarrow> error + bool" where
  "hasAnyIonScript s = hasIonScript s"

text \<open>
  \<^verbatim>\<open>bool hasBaselineScript() const {
      bool res = baseline && baseline != BASELINE_DISABLED_SCRIPT;
      MOZ_ASSERT_IF(!res, !ion || ion == ION_DISABLED_SCRIPT);
      return res; }\<close>
\<close>

definition hasBaselineScript :: "JSScript \<Rightarrow> error + bool" where
  "hasBaselineScript s =
     (let res = (baseline s \<noteq> nullptr \<and> baseline s \<noteq> BASELINE_DISABLED_SCRIPT)
      in if \<not> (\<not> res \<longrightarrow> ion s = nullptr \<or> ion s = ION_DISABLED_SCRIPT)
         then Inl AssertionFailure else Inr res)"

text \<open>
  \<^verbatim>\<open>bool isRelazifiable() const {
      return (selfHosted() || lazyScript) && !bitFields_.hasInnerFunctions_ && !types_ &&
             !isGenerator() && !isAsync() &&
             !isDefaultClassConstructor() &&
             !hasBaselineScript() && !hasAnyIonScript() &&
             !bitFields_.doNotRelazify_; }\<close>
  The operator \<^verbatim>\<open>&&\<close> evaluates from the left and stops at the first false operand, so
  the asserting accessors are called only when every operand before them is true.
\<close>

definition isRelazifiable :: "JSScript \<Rightarrow> error + bool" where
  "isRelazifiable s =
     (if \<not> ((selfHosted s \<or> lazyScript s \<noteq> nullptr) \<and> \<not> hasInnerFunctions' (bitFields' s) \<and>
              types' s = nullptr \<and> \<not> isGenerator s \<and> \<not> isAsync s \<and>
              \<not> isDefaultClassConstructor s)
      then Inr False
      else (case hasBaselineScript s of
              Inl e \<Rightarrow> Inl e
            | Inr b \<Rightarrow>
                if b then Inr False
                else (case hasAnyIonScript s of
                        Inl e \<Rightarrow> Inl e
                      | Inr i \<Rightarrow>
                          if i then Inr False
                          else Inr (\<not> doNotRelazify' (bitFields' s)))))"

subsection \<open>The optional arrays\<close>

text \<open>
  \<^verbatim>\<open>bool hasArray(ArrayKind kind) const { return bitFields_.hasArrayBits_ & (1 << kind); }\<close>
  The bit-field is promoted to \<^verbatim>\<open>int\<close> before the mask is applied, and the result is
  true when it is not zero.
\<close>

definition hasArray :: "JSScript \<Rightarrow> ArrayKind \<Rightarrow> bool" where
  "hasArray s kind =
     ((ucast (hasArrayBits' (bitFields' s)) AND push_bit (ArrayKind_value kind) (1 :: 32 word)) \<noteq> 0)"

text \<open>\<^verbatim>\<open>void setHasArray(ArrayKind kind) { bitFields_.hasArrayBits_ |= (1 << kind); }\<close>\<close>

definition setHasArray :: "JSScript \<Rightarrow> ArrayKind \<Rightarrow> JSScript" where
  "setHasArray s kind =
     s\<lparr>bitFields' := (bitFields' s)\<lparr>hasArrayBits' :=
          ucast ((ucast (hasArrayBits' (bitFields' s)) :: 32 word) OR
                 push_bit (ArrayKind_value kind) 1)\<rparr>\<rparr>"

definition hasConsts :: "JSScript \<Rightarrow> bool" where
  "hasConsts s = hasArray s CONSTS"

definition hasObjects :: "JSScript \<Rightarrow> bool" where
  "hasObjects s = hasArray s OBJECTS"

definition hasTrynotes :: "JSScript \<Rightarrow> bool" where
  "hasTrynotes s = hasArray s TRYNOTES"

definition hasScopeNotes :: "JSScript \<Rightarrow> bool" where
  "hasScopeNotes s = hasArray s SCOPENOTES"

definition hasYieldAndAwaitOffsets :: "JSScript \<Rightarrow> bool" where
  "hasYieldAndAwaitOffsets s = (isGenerator s \<or> isAsync s)"

text \<open>
  The sizes of the array headers (\<^verbatim>\<open>sizeof(js::ScopeArray)\<close> and so on) depend on the
  target; they are the parameter \<open>sz\<close>.
\<close>

record header_sizes =
  sizeof_ScopeArray :: size_t
  sizeof_ConstArray :: size_t
  sizeof_ObjectArray :: size_t
  sizeof_TryNoteArray :: size_t
  sizeof_ScopeNoteArray :: size_t

text \<open>
  \<^verbatim>\<open>#define OFF(fooOff, hasFoo, t)   (fooOff() + (hasFoo() ? sizeof(t) : 0))\<close>
\<close>

definition OFF :: "size_t \<Rightarrow> bool \<Rightarrow> size_t \<Rightarrow> size_t" where
  "OFF fooOff hasFoo sizeof_t = fooOff + (if hasFoo then sizeof_t else 0)"

text \<open>
  \<^verbatim>\<open>size_t scopesOffset() const       { return 0; }
  size_t constsOffset() const       { return scopesOffset() + sizeof(js::ScopeArray); }
  size_t objectsOffset() const      { return OFF(constsOffset,     hasConsts,     js::ConstArray); }
  size_t trynotesOffset() const     { return OFF(objectsOffset,    hasObjects,    js::ObjectArray); }
  size_t scopeNotesOffset() const   { return OFF(trynotesOffset,   hasTrynotes,   js::TryNoteArray); }
  size_t yieldAndAwaitOffsetsOffset() const {
      return OFF(scopeNotesOffset, hasScopeNotes, js::ScopeNoteArray); }\<close>
\<close>

definition scopesOffset :: "header_sizes \<Rightarrow> JSScript \<Rightarrow> size_t" where
  "scopesOffset sz s = 0"

definition constsOffset :: "header_sizes \<Rightarrow> JSScript \<Rightarrow> size_t" where
  "constsOffset sz s = scopesOffset sz s + sizeof_ScopeArray sz"

definition objectsOffset :: "header_sizes \<Rightarrow> JSScript \<Rightarrow> size_t" where
  "objectsOffset sz s = OFF (constsOffset sz s) (hasConsts s) (sizeof_ConstArray sz)"

definition trynotesOffset :: "header_sizes \<Rightarrow> JSScript \<Rightarrow> size_t" where
  "trynotesOffset sz s = OFF (objectsOffset sz s) (hasObjects s) (sizeof_ObjectArray sz)"

definition scopeNotesOffset :: "header_sizes \<Rightarrow> JSScript \<Rightarrow> size_t" where
  "scopeNotesOffset sz s = OFF (trynotesOffset sz s) (hasTrynotes s) (sizeof_TryNoteArray sz)"

definition yieldAndAwaitOffsetsOffset :: "header_sizes \<Rightarrow> JSScript \<Rightarrow> size_t" where
  "yieldAndAwaitOffsetsOffset sz s =
     OFF (scopeNotesOffset sz s) (hasScopeNotes s) (sizeof_ScopeNoteArray sz)"

subsection \<open>Tier transitions\<close>

text \<open>
  Modelled from the spec: the transitions of the JIT slots. Their bodies
  (\<^verbatim>\<open>JSScript::setIonScript\<close>, \<^verbatim>\<open>JSScript::setBaselineScript\<close> and their callers) are
  not in this header, which only declares them. The spec (section 3): "Each tier slot
  is a 4-state machine: absent/never-attempted, permanently disabled,
  compiling-off-thread (not yet usable), compiled-and-attached. The optimizing tier
  additionally has pending-link (compiled but not yet wired in). States are
  distinguished from real attached-code addresses via reserved sentinel values";
  (section 4.3) "Tier-state transitions: \<^verbatim>\<open>markCompiling(tier)\<close>,
  \<^verbatim>\<open>attach(tier, codeHandle)\<close>, \<^verbatim>\<open>disable(tier)\<close>, \<^verbatim>\<open>markPendingLink()\<close> (optimizing tier
  only) -> \<^verbatim>\<open>linkPending()\<close>. Invariant: the baseline tier must be attached before the
  optimizing tier may be attached. Invalidation (\<^verbatim>\<open>detachOptimizing()\<close>) always succeeds
  and reverts to baseline-only; it does not touch the baseline slot"; and (section 8)
  "attaching the optimizing tier before the baseline tier is attached fails with an
  ordering error; detaching optimizing never clears baseline".

  The slots are the pointers \<open>ion\<close> and \<open>baseline\<close> of the header, and the states are
  its values: null is absent, \<^verbatim>\<open>ION_DISABLED_SCRIPT\<close> and \<^verbatim>\<open>BASELINE_DISABLED_SCRIPT\<close> are
  disabled, \<^verbatim>\<open>ION_COMPILING_SCRIPT\<close> is compiling, \<^verbatim>\<open>ION_PENDING_SCRIPT\<close> is pending-link,
  and any other value is attached code. A transition writes the state it names into
  the slot of its tier and nothing else; the only failure the spec gives a transition
  is the ordering error of \<open>attach\<close>. A disabled slot is permanently disabled: a
  transition applied to a slot that is disabled leaves the script as it is. The header
  has no sentinel for a baseline compilation in progress, and the spec has baseline
  compilation run synchronously on the owning thread, so \<open>markCompiling\<close> of the baseline
  tier writes nothing.
\<close>

datatype Tier = BaselineTier | OptimizingTier

text \<open>
  The baseline tier is attached when its slot holds code, the operand \<^verbatim>\<open>res\<close> of
  \<open>hasBaselineScript\<close>; the optimizing tier is attached when its slot holds code, the
  operand \<^verbatim>\<open>res\<close> of \<open>hasIonScript\<close>.
\<close>

definition baselineAttached :: "JSScript \<Rightarrow> bool" where
  "baselineAttached s = (baseline s \<noteq> nullptr \<and> baseline s \<noteq> BASELINE_DISABLED_SCRIPT)"

definition optimizingAttached :: "JSScript \<Rightarrow> bool" where
  "optimizingAttached s =
     (ion s \<noteq> nullptr \<and> ion s \<noteq> ION_DISABLED_SCRIPT \<and>
      ion s \<noteq> ION_COMPILING_SCRIPT \<and> ion s \<noteq> ION_PENDING_SCRIPT)"

fun markCompiling :: "Tier \<Rightarrow> JSScript \<Rightarrow> JSScript" where
  "markCompiling OptimizingTier s =
     (if ion s = ION_DISABLED_SCRIPT then s else s\<lparr>ion := ION_COMPILING_SCRIPT\<rparr>)"
| "markCompiling BaselineTier s = s"

fun attach :: "Tier \<Rightarrow> ptr \<Rightarrow> JSScript \<Rightarrow> error + JSScript" where
  "attach BaselineTier codeHandle s =
     Inr (if baseline s = BASELINE_DISABLED_SCRIPT then s else s\<lparr>baseline := codeHandle\<rparr>)"
| "attach OptimizingTier codeHandle s =
     (if \<not> baselineAttached s then Inl OrderingError
      else Inr (if ion s = ION_DISABLED_SCRIPT then s else s\<lparr>ion := codeHandle\<rparr>))"

fun disable :: "Tier \<Rightarrow> JSScript \<Rightarrow> JSScript" where
  "disable BaselineTier s = s\<lparr>baseline := BASELINE_DISABLED_SCRIPT\<rparr>"
| "disable OptimizingTier s = s\<lparr>ion := ION_DISABLED_SCRIPT\<rparr>"

definition markPendingLink :: "JSScript \<Rightarrow> JSScript" where
  "markPendingLink s =
     (if ion s = ION_DISABLED_SCRIPT then s else s\<lparr>ion := ION_PENDING_SCRIPT\<rparr>)"

text \<open>
  \<open>linkPending\<close> wires in the code of a slot that is pending-link, as \<open>attach\<close> does; to
  link a slot that is not pending-link is the spec's "structural-invariant violation
  (programming error -- fatal assertion)".
\<close>

definition linkPending :: "ptr \<Rightarrow> JSScript \<Rightarrow> error + JSScript" where
  "linkPending codeHandle s =
     (if ion s \<noteq> ION_PENDING_SCRIPT then Inl AssertionFailure
      else attach OptimizingTier codeHandle s)"

definition detachOptimizing :: "JSScript \<Rightarrow> JSScript" where
  "detachOptimizing s = (if ion s = ION_DISABLED_SCRIPT then s else s\<lparr>ion := nullptr\<rparr>)"

text \<open>The transitions as operations, and a run of them; a failure ends the run.\<close>

datatype tier_op =
    MarkCompiling Tier
  | AttachCode Tier ptr
  | Disable Tier
  | MarkPendingLink
  | LinkPending ptr
  | DetachOptimizing

fun tier_step :: "tier_op \<Rightarrow> JSScript \<Rightarrow> error + JSScript" where
  "tier_step (MarkCompiling tier) s = Inr (markCompiling tier s)"
| "tier_step (AttachCode tier codeHandle) s = attach tier codeHandle s"
| "tier_step (Disable tier) s = Inr (disable tier s)"
| "tier_step MarkPendingLink s = Inr (markPendingLink s)"
| "tier_step (LinkPending codeHandle) s = linkPending codeHandle s"
| "tier_step DetachOptimizing s = Inr (detachOptimizing s)"

fun tier_run :: "tier_op list \<Rightarrow> JSScript \<Rightarrow> error + JSScript" where
  "tier_run [] s = Inr s"
| "tier_run (opr # ops) s =
     (case tier_step opr s of
        Inl e \<Rightarrow> Inl e
      | Inr s' \<Rightarrow> tier_run ops s')"





section \<open>ScriptSource: source text, compression and pins\<close>

text \<open>
  The matchers \<^verbatim>\<open>HasUncompressedSource\<close>, \<^verbatim>\<open>HasCompressedSource\<close> and the accessors built
  on them.
\<close>

definition hasUncompressedSource :: "ScriptSource \<Rightarrow> bool" where
  "hasUncompressedSource src =
     (case data src of
        UncompressedUtf8 cs \<Rightarrow> True
      | UncompressedUtf16 cs \<Rightarrow> True
      | CompressedUtf8 raw n \<Rightarrow> False
      | CompressedUtf16 raw n \<Rightarrow> False
      | BinAST b \<Rightarrow> False
      | Missing \<Rightarrow> False)"

definition hasCompressedSource :: "ScriptSource \<Rightarrow> bool" where
  "hasCompressedSource src =
     (case data src of
        CompressedUtf8 raw n \<Rightarrow> True
      | CompressedUtf16 raw n \<Rightarrow> True
      | UncompressedUtf8 cs \<Rightarrow> False
      | UncompressedUtf16 cs \<Rightarrow> False
      | BinAST b \<Rightarrow> False
      | Missing \<Rightarrow> False)"

text \<open>
  \<^verbatim>\<open>bool hasSourceText() const { return hasUncompressedSource() || hasCompressedSource(); }\<close>
  and \<^verbatim>\<open>bool hasBinASTSource() const { return data.is<BinAST>(); }\<close>
\<close>

definition hasSourceText :: "ScriptSource \<Rightarrow> bool" where
  "hasSourceText src = (hasUncompressedSource src \<or> hasCompressedSource src)"

definition hasBinASTSource :: "ScriptSource \<Rightarrow> bool" where
  "hasBinASTSource src = (case data src of BinAST b \<Rightarrow> True | _ \<Rightarrow> False)"

text \<open>
  \<^verbatim>\<open>size_t length() const {
      MOZ_ASSERT(hasSourceText() || hasBinASTSource());
      return data.match(UncompressedLengthMatcher()); }\<close>
  where the matcher returns the length of an uncompressed string, the recorded
  \<^verbatim>\<open>uncompressedLength\<close> of compressed text, the length of BinAST data, and crashes on a
  missing source.
\<close>

definition ScriptSource_length :: "ScriptSource \<Rightarrow> error + nat" where
  "ScriptSource_length src =
     (if \<not> (hasSourceText src \<or> hasBinASTSource src) then Inl AssertionFailure
      else (case data src of
              UncompressedUtf8 cs \<Rightarrow> Inr (length cs)
            | UncompressedUtf16 cs \<Rightarrow> Inr (length cs)
            | CompressedUtf8 raw n \<Rightarrow> Inr n
            | CompressedUtf16 raw n \<Rightarrow> Inr n
            | BinAST b \<Rightarrow> Inr (length b)
            | Missing \<Rightarrow> Inl Crash))"

text \<open>
  Modelled from the spec: \<^verbatim>\<open>ScriptSource::setCompressedSource<Unit>\<close>, which the header
  declares and whose body is not in it. The header says of \<^verbatim>\<open>pinnedUnitsStack_\<close>: "If
  the GC attempts to call setCompressedSource with PinnedUnits present, the first
  PinnedUnits (that is, bottom of the stack) will set the compressed chars upon
  destruction", and the spec (section 5): "Source compression completion is applied at
  the first pin boundary after completion, never mid-pin". So with a pin outstanding
  the compressed text is stored as pending, and without one it replaces the data.
\<close>

definition setCompressedSource :: "SourceType \<Rightarrow> ScriptSource \<Rightarrow> ScriptSource" where
  "setCompressedSource compressed src =
     (if pinnedUnitsStack' src \<noteq> [] then src\<lparr>pendingCompressed' := Some compressed\<rparr>
      else src\<lparr>data := compressed\<rparr>)"

text \<open>
  \<^verbatim>\<open>setCompressedSourceFromTask\<close> hands the result of a compression task to the source
  through the matcher \<^verbatim>\<open>SetCompressedSourceFromTask\<close> of the header:
  \<^verbatim>\<open>template<typename Unit> void match(const Uncompressed<Unit>&) {
      source_->setCompressedSource<Unit>(std::move(compressed_), source_->length()); }\<close>,
  and \<^verbatim>\<open>MOZ_CRASH\<close> for compressed, BinAST and missing data.
\<close>

definition setCompressedSourceFromTask ::
  "SharedImmutableString \<Rightarrow> ScriptSource \<Rightarrow> error + ScriptSource"
where
  "setCompressedSourceFromTask compressed src =
     (case data src of
        UncompressedUtf8 cs \<Rightarrow>
          (case ScriptSource_length src of
             Inl e \<Rightarrow> Inl e
           | Inr n \<Rightarrow> Inr (setCompressedSource (CompressedUtf8 compressed n) src))
      | UncompressedUtf16 cs \<Rightarrow>
          (case ScriptSource_length src of
             Inl e \<Rightarrow> Inl e
           | Inr n \<Rightarrow> Inr (setCompressedSource (CompressedUtf16 compressed n) src))
      | CompressedUtf8 raw n \<Rightarrow> Inl Crash
      | CompressedUtf16 raw n \<Rightarrow> Inl Crash
      | BinAST b \<Rightarrow> Inl Crash
      | Missing \<Rightarrow> Inl Crash)"

text \<open>
  Modelled from the spec: the constructor and the destructor of \<^verbatim>\<open>PinnedUnits\<close> and
  \<^verbatim>\<open>movePendingCompressedSource\<close>, which the header declares and whose bodies are not in
  it. The spec (section 4.1): "\<^verbatim>\<open>pin(start,len) -> guarded pointer\<close> [...] guarantees
  the buffer will not be relocated/freed by a concurrent compression completion while
  any pin is outstanding, by making the first outstanding pin become the applier of a
  deferred compression result when it is released", "requesting substring data when the
  record is empty/absent is a programming error", and (section 5) pinning takes "the pin
  on whichever representation is currently active". Pins are scoped objects, so the pin
  released is the one on top of the stack.
\<close>

definition pin :: "nat \<Rightarrow> nat \<Rightarrow> ScriptSource \<Rightarrow> error + ScriptSource" where
  "pin start len src =
     (if \<not> hasSourceText src then Inl AssertionFailure
      else Inr (src\<lparr>pinnedUnitsStack' :=
                  \<lparr>units' = UnitsIn (data src) start, pin_len = len\<rparr> # pinnedUnitsStack' src\<rparr>))"

definition movePendingCompressedSource :: "ScriptSource \<Rightarrow> ScriptSource" where
  "movePendingCompressedSource src =
     (case pendingCompressed' src of
        None \<Rightarrow> src
      | Some compressed \<Rightarrow> src\<lparr>data := compressed, pendingCompressed' := None\<rparr>)"

definition unpin :: "ScriptSource \<Rightarrow> error + ScriptSource" where
  "unpin src =
     (case pinnedUnitsStack' src of
        [] \<Rightarrow> Inl AssertionFailure
      | p # prev \<Rightarrow>
          (let src1 = src\<lparr>pinnedUnitsStack' := prev\<rparr>
           in if prev = [] then Inr (movePendingCompressedSource src1) else Inr src1))"

text \<open>
  The pointer of a pin is valid while the buffer it points into is alive: a pointer
  into the uncompressed string of the source, while the source still holds that string;
  a pointer into a decompressed chunk, as long as the pin exists (its holder keeps the
  chunk).
\<close>

definition pin_valid :: "ScriptSource \<Rightarrow> PinnedUnits \<Rightarrow> bool" where
  "pin_valid src p =
     (case units' p of
        UnitsIn rep start \<Rightarrow>
          (case rep of
             UncompressedUtf8 cs \<Rightarrow> data src = rep
           | UncompressedUtf16 cs \<Rightarrow> data src = rep
           | CompressedUtf8 raw n \<Rightarrow> True
           | CompressedUtf16 raw n \<Rightarrow> True
           | BinAST b \<Rightarrow> False
           | Missing \<Rightarrow> False))"

definition pins_valid :: "ScriptSource \<Rightarrow> bool" where
  "pins_valid src = list_all (pin_valid src) (pinnedUnitsStack' src)"

text \<open>
  The events in the life of a source on its owning thread: a pin is taken, the top pin
  is released, a background compression completes.
\<close>

datatype source_op = Pin nat nat | Unpin | CompressionDone SharedImmutableString

fun source_step :: "source_op \<Rightarrow> ScriptSource \<Rightarrow> error + ScriptSource" where
  "source_step (Pin start len) src = pin start len src"
| "source_step Unpin src = unpin src"
| "source_step (CompressionDone compressed) src = setCompressedSourceFromTask compressed src"

fun source_run :: "source_op list \<Rightarrow> ScriptSource \<Rightarrow> error + ScriptSource" where
  "source_run [] src = Inr src"
| "source_run (opr # ops) src =
     (case source_step opr src of
        Inl e \<Rightarrow> Inl e
      | Inr src' \<Rightarrow> source_run ops src')"

section \<open>LazyScript\<close>

text \<open>
  \<^verbatim>\<open>GCPtr<TenuredCell*> enclosingLazyScriptOrScope_\<close> points to a cell of the collector;
  \<^verbatim>\<open>is<Scope>()\<close> and \<^verbatim>\<open>is<LazyScript>()\<close> read the kind of the cell. A cell is its kind
  and its address; the null pointer is \<open>None\<close>.
\<close>

datatype TenuredCell = ScopeCell ptr | LazyScriptCell ptr | OtherCell ptr

fun is_Scope :: "TenuredCell \<Rightarrow> bool" where
  "is_Scope (ScopeCell a) = True"
| "is_Scope (LazyScriptCell a) = False"
| "is_Scope (OtherCell a) = False"

fun is_LazyScript :: "TenuredCell \<Rightarrow> bool" where
  "is_LazyScript (LazyScriptCell a) = True"
| "is_LazyScript (ScopeCell a) = False"
| "is_LazyScript (OtherCell a) = False"

fun cell_address :: "TenuredCell \<Rightarrow> ptr" where
  "cell_address (ScopeCell a) = a"
| "cell_address (LazyScriptCell a) = a"
| "cell_address (OtherCell a) = a"

text \<open>
  \<^verbatim>\<open>class LazyScript\<close>: the weak pointer \<^verbatim>\<open>script_\<close> to the compiled script and the
  enclosing reference. The members that no embedded function reads or writes (function,
  source object, table, packed fields, source positions) are left out.
\<close>

record LazyScript =
  script' :: ptr
  enclosingLazyScriptOrScope' :: "TenuredCell option"

text \<open>
  A lazy script as \<^verbatim>\<open>Create\<close> leaves it. The header, on the enclosing reference:
  "nullptr for incomplete (initial or failure) state"; and on \<^verbatim>\<open>script_\<close>: "If
  non-nullptr, the script has been compiled and this is a forwarding pointer to the
  result".
\<close>

definition LazyScript_new :: LazyScript where
  "LazyScript_new = \<lparr>script' = nullptr, enclosingLazyScriptOrScope' = None\<rparr>"

text \<open>
  \<^verbatim>\<open>JSScript* maybeScript() { return script_; }\<close> and
  \<^verbatim>\<open>bool hasScript() const { return bool(script_); }\<close>
\<close>

definition maybeScript :: "LazyScript \<Rightarrow> ptr" where
  "maybeScript lazy = script' lazy"

definition hasScript :: "LazyScript \<Rightarrow> bool" where
  "hasScript lazy = (script' lazy \<noteq> nullptr)"

text \<open>
  \<^verbatim>\<open>bool hasEnclosingScope() const {
      return enclosingLazyScriptOrScope_ && enclosingLazyScriptOrScope_->is<Scope>(); }
  bool hasEnclosingLazyScript() const {
      return enclosingLazyScriptOrScope_ && enclosingLazyScriptOrScope_->is<LazyScript>(); }\<close>
\<close>

definition hasEnclosingScope :: "LazyScript \<Rightarrow> bool" where
  "hasEnclosingScope lazy =
     (case enclosingLazyScriptOrScope' lazy of
        None \<Rightarrow> False
      | Some cell \<Rightarrow> is_Scope cell)"

definition hasEnclosingLazyScript :: "LazyScript \<Rightarrow> bool" where
  "hasEnclosingLazyScript lazy =
     (case enclosingLazyScriptOrScope' lazy of
        None \<Rightarrow> False
      | Some cell \<Rightarrow> is_LazyScript cell)"

text \<open>
  \<^verbatim>\<open>LazyScript* enclosingLazyScript() const {
      MOZ_ASSERT(hasEnclosingLazyScript());
      return enclosingLazyScriptOrScope_->as<LazyScript>(); }
  Scope* enclosingScope() const {
      MOZ_ASSERT(hasEnclosingScope());
      return enclosingLazyScriptOrScope_->as<Scope>(); }\<close>
\<close>

definition enclosingLazyScript :: "LazyScript \<Rightarrow> error + ptr" where
  "enclosingLazyScript lazy =
     (if \<not> hasEnclosingLazyScript lazy then Inl AssertionFailure
      else (case enclosingLazyScriptOrScope' lazy of
              None \<Rightarrow> Inl AssertionFailure
            | Some cell \<Rightarrow> Inr (cell_address cell)))"

definition enclosingScope :: "LazyScript \<Rightarrow> error + ptr" where
  "enclosingScope lazy =
     (if \<not> hasEnclosingScope lazy then Inl AssertionFailure
      else (case enclosingLazyScriptOrScope' lazy of
              None \<Rightarrow> Inl AssertionFailure
            | Some cell \<Rightarrow> Inr (cell_address cell)))"

text \<open>
  \<^verbatim>\<open>bool enclosingScriptHasEverBeenCompiled() const { return hasEnclosingScope(); }\<close>
\<close>

definition enclosingScriptHasEverBeenCompiled :: "LazyScript \<Rightarrow> bool" where
  "enclosingScriptHasEverBeenCompiled lazy = hasEnclosingScope lazy"

subsection \<open>Setting the enclosing reference\<close>

text \<open>
  Modelled from the spec: \<^verbatim>\<open>LazyScript::setEnclosingLazyScript\<close> (the spec's
  \<^verbatim>\<open>setEnclosingStub\<close>) and \<^verbatim>\<open>LazyScript::setEnclosingScope\<close>, which the header declares
  and whose bodies are not in it. The spec (section 9): "a tagged union {Uninit,
  EnclosingStub(ref), EnclosingScope(ref)} with a transition function that asserts the
  prior state was EnclosingStub or Uninit, never re-enterable once EnclosingScope is
  set", and (section 3) "transitions monotonically stub->scope, never the reverse". The
  header's comment on the field agrees: "setEnclosingScope (cannot be called twice)",
  "setEnclosingLazyScript (cannot be called twice)", a transition diagram with the
  edges nullptr -> enclosing LazyScript (setEnclosingLazyScript), enclosing LazyScript ->
  enclosing Scope and nullptr -> enclosing Scope (setEnclosingScope), and "Once this
  field is changed to point the enclosing scope, this field will never point the
  enclosing LazyScript again".
\<close>

definition setEnclosingLazyScript :: "ptr \<Rightarrow> LazyScript \<Rightarrow> error + LazyScript" where
  "setEnclosingLazyScript enclosing lazy =
     (if hasEnclosingLazyScript lazy then Inl AssertionFailure
      else if hasEnclosingScope lazy then Inl AssertionFailure
      else Inr (lazy\<lparr>enclosingLazyScriptOrScope' := Some (LazyScriptCell enclosing)\<rparr>))"

definition setEnclosingScope :: "ptr \<Rightarrow> LazyScript \<Rightarrow> error + LazyScript" where
  "setEnclosingScope enclosing lazy =
     (if hasEnclosingScope lazy then Inl AssertionFailure
      else Inr (lazy\<lparr>enclosingLazyScriptOrScope' := Some (ScopeCell enclosing)\<rparr>))"

datatype enclosing_op = SetEnclosingLazyScript ptr | SetEnclosingScope ptr

fun enclosing_step :: "enclosing_op \<Rightarrow> LazyScript \<Rightarrow> error + LazyScript" where
  "enclosing_step (SetEnclosingLazyScript enclosing) lazy = setEnclosingLazyScript enclosing lazy"
| "enclosing_step (SetEnclosingScope enclosing) lazy = setEnclosingScope enclosing lazy"

fun enclosing_run :: "enclosing_op list \<Rightarrow> LazyScript \<Rightarrow> error + LazyScript" where
  "enclosing_run [] lazy = Inr lazy"
| "enclosing_run (opr # ops) lazy =
     (case enclosing_step opr lazy of
        Inl e \<Rightarrow> Inl e
      | Inr lazy' \<Rightarrow> enclosing_run ops lazy')"

text \<open>
  The position of the enclosing reference in its order of states: 0 for null, 1 for an
  enclosing lazy script, 2 for an enclosing scope.
\<close>

definition enclosing_rank :: "LazyScript \<Rightarrow> nat" where
  "enclosing_rank lazy =
     (if hasEnclosingScope lazy then 2 else if hasEnclosingLazyScript lazy then 1 else 0)"

subsection \<open>Delazification\<close>

text \<open>
  Modelled from the spec: \<^verbatim>\<open>LazyScript::initScript\<close>, which the header declares, the
  delazification of a lazy script and the sweeping of its weak pointer, none of whose
  bodies is in this header. The spec (section 4.4): "\<^verbatim>\<open>delazify() ->
  CompiledScriptHandle\<close> -- triggers full parse/compile of the covered span using the
  owning Source Record; on success, records a weak back-reference; idempotent if already
  delazified and the result is still alive (returns the existing script rather than
  recompiling)"; (section 9): the weak back-reference is "cleared by the collector's
  sweep phase". The parser and emitter are out of scope: \<open>compiled\<close> is the script that
  a full compile of the span yields when it is run, and the null pointer when it fails.
\<close>

definition initScript :: "ptr \<Rightarrow> LazyScript \<Rightarrow> LazyScript" where
  "initScript script lazy = lazy\<lparr>script' := script\<rparr>"

definition delazify :: "ptr \<Rightarrow> LazyScript \<Rightarrow> error + (ptr \<times> LazyScript)" where
  "delazify compiled lazy =
     (if hasScript lazy then Inr (maybeScript lazy, lazy)
      else if compiled = nullptr then Inl AllocError
      else Inr (compiled, initScript compiled lazy))"

definition sweep :: "(ptr \<Rightarrow> bool) \<Rightarrow> LazyScript \<Rightarrow> LazyScript" where
  "sweep is_alive lazy =
     (if script' lazy \<noteq> nullptr \<and> \<not> is_alive (script' lazy) then lazy\<lparr>script' := nullptr\<rparr>
      else lazy)"

section \<open>Properties of the reference counts\<close>

lemma decref_cases:
  "decref src =
     (if refs src = 0 then Inl AssertionFailure
      else if refs src = 1 then Inr Destroyed
      else Inr (Alive (src\<lparr>refs := refs src - 1\<rparr>)))"
  by (simp add: decref_def Let_def)

lemma decRefCount_cases:
  "decRefCount d =
     (if refCount' d = 0 then Inl AssertionFailure
      else if refCount' d = 1 then Inr Destroyed
      else Inr (Alive (d\<lparr>refCount' := refCount' d - 1\<rparr>)))"
  by (simp add: decRefCount_def Let_def)

lemma ref_run_lifecycle:
  assumes inc: "\<And>x. cnt (inc x) = cnt x + (1::32 word)"
    and dec0: "\<And>x. cnt x = 0 \<Longrightarrow> dec x = Inl AssertionFailure"
    and dec1: "\<And>x. cnt x = 1 \<Longrightarrow> dec x = Inr Destroyed"
    and decn: "\<And>x. cnt x \<noteq> 0 \<Longrightarrow> cnt x \<noteq> 1 \<Longrightarrow> \<exists>y. dec x = Inr (Alive y) \<and> cnt y = cnt x - 1"
  shows "holders_ok n ops \<Longrightarrow> unat (cnt x) = n \<Longrightarrow> n + length ops < 2 ^ 32 \<Longrightarrow>
     (case ref_run inc dec ops (Alive x) of
        Inl e \<Rightarrow> False
      | Inr Destroyed \<Rightarrow> outstanding n ops = 0 \<and> ops \<noteq> []
      | Inr (Alive y) \<Rightarrow> unat (cnt y) = outstanding n ops \<and> (0 < outstanding n ops \<or> ops = []))"
proof (induction ops arbitrary: n x)
  case Nil
  then show ?case by simp
next
  case (Cons opr ops)
  show ?case
  proof (cases opr)
    case Attach
    have u: "unat (cnt (inc x)) = Suc n"
      using Cons.prems(2,3) by (simp add: inc unat_word_ariths)
    have h: "holders_ok (Suc n) ops" using Cons.prems(1) Attach by simp
    have b: "Suc n + length ops < 2 ^ 32" using Cons.prems(3) by simp
    from Cons.IH [OF h u b] show ?thesis
      using Attach by (auto split: sum.splits released.splits)
  next
    case Release
    have pos: "0 < n" using Cons.prems(1) Release by simp
    show ?thesis
    proof (cases "n = 1")
      case True
      then have "cnt x = 1" using Cons.prems(2) by (simp add: word_unat_eq_iff)
      moreover have "ops = []" using Cons.prems(1) Release True by simp
      ultimately show ?thesis using Release True by (simp add: dec1)
    next
      case False
      have c0: "cnt x \<noteq> 0" using pos Cons.prems(2) by auto
      have c1: "cnt x \<noteq> 1" using False Cons.prems(2) by auto
      from decn [OF c0 c1] obtain y where y: "dec x = Inr (Alive y)" "cnt y = cnt x - 1"
        by blast
      have u: "unat (cnt y) = n - 1"
        using y(2) c0 Cons.prems(2) by (simp add: unat_minus_one)
      have h: "holders_ok (n - 1) ops" using Cons.prems(1) Release False by simp
      have b: "n - 1 + length ops < 2 ^ 32" using Cons.prems(3) by simp
      from Cons.IH [OF h u b] show ?thesis
        using Release y(1) False pos by (auto split: sum.splits released.splits)
    qed
  qed
qed

text \<open>
  Claim C4. A release (\<open>decref\<close> of a ScriptSource, \<open>decRefCount\<close> of a SharedScriptData)
  destroys the instance if and only if the count is one before it, that is, if the
  decrement makes the count zero; from a count above one the instance stays alive with
  the count one less, and a release at count zero is an assertion failure. Over the
  life of an instance that starts with \<open>n\<close> holders and a count of \<open>n\<close>, any sequence of
  attaches and releases that follows the discipline of holders, with fewer than \<open>2^32\<close>
  references in all, runs without a failure (no assertion fails and nothing touches a
  destroyed instance, so it is never freed twice); it ends destroyed exactly when the
  number of holders has come back to zero (it is never leaked), and alive with a count
  equal to the number of holders otherwise.
\<close>

theorem refcount_destroyed_iff_zero:
  "(decref src = Inl AssertionFailure \<longleftrightarrow> refs src = 0)
   \<and> (decref src = Inr Destroyed \<longleftrightarrow> refs src = 1)
   \<and> (decref src = Inr (Alive (src\<lparr>refs := refs src - 1\<rparr>)) \<longleftrightarrow> 1 < unat (refs src))
   \<and> (decRefCount d = Inl AssertionFailure \<longleftrightarrow> refCount' d = 0)
   \<and> (decRefCount d = Inr Destroyed \<longleftrightarrow> refCount' d = 1)
   \<and> (decRefCount d = Inr (Alive (d\<lparr>refCount' := refCount' d - 1\<rparr>)) \<longleftrightarrow> 1 < unat (refCount' d))
   \<and> (holders_ok n ops \<and> unat (refs src) = n \<and> n + length ops < 2 ^ 32 \<longrightarrow>
        (case ref_run incref decref ops (Alive src) of
           Inl e \<Rightarrow> False
         | Inr Destroyed \<Rightarrow> outstanding n ops = 0 \<and> ops \<noteq> []
         | Inr (Alive src') \<Rightarrow>
             unat (refs src') = outstanding n ops \<and> (0 < outstanding n ops \<or> ops = [])))
   \<and> (holders_ok m ops' \<and> unat (refCount' d) = m \<and> m + length ops' < 2 ^ 32 \<longrightarrow>
        (case ref_run incRefCount decRefCount ops' (Alive d) of
           Inl e \<Rightarrow> False
         | Inr Destroyed \<Rightarrow> outstanding m ops' = 0 \<and> ops' \<noteq> []
         | Inr (Alive d') \<Rightarrow>
             unat (refCount' d') = outstanding m ops' \<and> (0 < outstanding m ops' \<or> ops' = [])))"
proof -
  have one: "1 < unat w \<longleftrightarrow> w \<noteq> 0 \<and> w \<noteq> 1" for w :: "32 word"
  proof -
    have z: "unat w = 0 \<longleftrightarrow> w = 0" by (simp add: unat_eq_zero)
    have o: "unat w = 1 \<longleftrightarrow> w = 1" by (simp add: word_unat_eq_iff)
    from z o show ?thesis by arith
  qed
  have a: "decref src = Inl AssertionFailure \<longleftrightarrow> refs src = 0"
    by (simp add: decref_cases)
  have b: "decref src = Inr Destroyed \<longleftrightarrow> refs src = 1"
    by (simp add: decref_cases)
  have c: "decref src = Inr (Alive (src\<lparr>refs := refs src - 1\<rparr>)) \<longleftrightarrow> 1 < unat (refs src)"
    using one [of "refs src"] by (auto simp: decref_cases)
  have a': "decRefCount d = Inl AssertionFailure \<longleftrightarrow> refCount' d = 0"
    by (simp add: decRefCount_cases)
  have b': "decRefCount d = Inr Destroyed \<longleftrightarrow> refCount' d = 1"
    by (simp add: decRefCount_cases)
  have c': "decRefCount d = Inr (Alive (d\<lparr>refCount' := refCount' d - 1\<rparr>)) \<longleftrightarrow>
      1 < unat (refCount' d)"
    using one [of "refCount' d"] by (auto simp: decRefCount_cases)
  have r: "holders_ok n ops \<and> unat (refs src) = n \<and> n + length ops < 2 ^ 32 \<longrightarrow>
        (case ref_run incref decref ops (Alive src) of
           Inl e \<Rightarrow> False
         | Inr Destroyed \<Rightarrow> outstanding n ops = 0 \<and> ops \<noteq> []
         | Inr (Alive src') \<Rightarrow>
             unat (refs src') = outstanding n ops \<and> (0 < outstanding n ops \<or> ops = []))"
    using ref_run_lifecycle [where cnt = refs and inc = incref and dec = decref
        and n = n and ops = ops and x = src]
    by (simp add: incref_def decref_cases)
  have r': "holders_ok m ops' \<and> unat (refCount' d) = m \<and> m + length ops' < 2 ^ 32 \<longrightarrow>
        (case ref_run incRefCount decRefCount ops' (Alive d) of
           Inl e \<Rightarrow> False
         | Inr Destroyed \<Rightarrow> outstanding m ops' = 0 \<and> ops' \<noteq> []
         | Inr (Alive d') \<Rightarrow>
             unat (refCount' d') = outstanding m ops' \<and> (0 < outstanding m ops' \<or> ops' = []))"
    using ref_run_lifecycle [where cnt = refCount' and inc = incRefCount and dec = decRefCount
        and n = m and ops = ops' and x = d]
    by (simp add: incRefCount_def decRefCount_cases)
  from a b c a' b' c' r r' show ?thesis by blast
qed

theorem refcount_destroyed_iff_zero_witness:
  "holders_ok 0 [Attach, Attach, Release, Release]
   \<and> ref_run incref decref [Attach, Attach, Release, Release] (Alive ScriptSource_new)
       = Inr Destroyed
   \<and> decref ScriptSource_new = Inl AssertionFailure
   \<and> holders_ok 2 [Release]
   \<and> ref_run incRefCount decRefCount [Release]
         (Alive \<lparr>refCount' = 2, natoms' = 0, codeLength' = 1, noteLength' = 1, data' = (\<lambda>i. 0)\<rparr>)
       = Inr (Alive \<lparr>refCount' = 1, natoms' = 0, codeLength' = 1, noteLength' = 1, data' = (\<lambda>i. 0)\<rparr>)"
  using refcount_destroyed_iff_zero [of ScriptSource_new
      "\<lparr>refCount' = 2, natoms' = 0, codeLength' = 1, noteLength' = 1, data' = (\<lambda>i. 0)\<rparr>"
      0 "[Attach, Attach, Release, Release]" 2 "[Release]"]
  by (simp add: ScriptSource_new_def incref_def decref_def incRefCount_def decRefCount_def)

section \<open>Properties of ScriptSourceHolder\<close>

lemma word32_add1_eq_0: "(w :: 32 word) + 1 = 0 \<longleftrightarrow> w = - 1"
  by (metis add.commute add.right_inverse add_left_cancel)

lemma reset_same_source_aux:
  assumes "st p = Some src" and "refs src \<noteq> 0" and "p \<noteq> nullptr"
  shows "reset \<lparr>ss = p\<rparr> p st =
           (if refs src = - 1 then Inl AssertionFailure else Inr (\<lparr>ss = p\<rparr>, st))"
proof (cases "refs src = - 1")
  case True
  then show ?thesis
    using assms by (simp add: reset_def incref_at_def decref_at_def decref_cases incref_def)
next
  case False
  have same: "st(p \<mapsto> src) = st" using assms(1) by (simp add: fun_upd_idem)
  from False show ?thesis
    using assms same
    by (simp add: reset_def incref_at_def decref_at_def decref_cases incref_def
        word32_add1_eq_0)
qed

text \<open>
  Claim C9. \<open>reset\<close> increments the new source before it decrements the old one. So for
  a holder that holds a live source (the holder's own reference makes its count at
  least one), resetting the holder to that same source leaves the holder, the source and
  its count exactly as they were: the source is not destroyed. (At the count \<open>2^32 - 1\<close>
  the increment wraps to zero and the assertion of \<open>decref\<close> fails; the source is not
  destroyed then either.)
\<close>

theorem reset_to_held_source:
  assumes "ss holder \<noteq> nullptr"
    and "st (ss holder) = Some src"
    and "refs src \<noteq> 0"
  shows "reset holder (ss holder) st =
           (if refs src = - 1 then Inl AssertionFailure else Inr (holder, st))"
proof -
  have "holder = \<lparr>ss = ss holder\<rparr>" by simp
  then show ?thesis
    using reset_same_source_aux [of st "ss holder" src] assms by metis
qed

theorem reset_to_held_source_witness:
  "ss \<lparr>ss = 16\<rparr> \<noteq> nullptr
   \<and> [16 \<mapsto> ScriptSource_new\<lparr>refs := 1\<rparr>] (ss \<lparr>ss = 16\<rparr>) = Some (ScriptSource_new\<lparr>refs := 1\<rparr>)
   \<and> refs (ScriptSource_new\<lparr>refs := 1\<rparr>) \<noteq> 0
   \<and> reset \<lparr>ss = 16\<rparr> 16 [16 \<mapsto> ScriptSource_new\<lparr>refs := 1\<rparr>]
       = Inr (\<lparr>ss = 16\<rparr>, [16 \<mapsto> ScriptSource_new\<lparr>refs := 1\<rparr>])"
  using reset_to_held_source [of "\<lparr>ss = 16\<rparr>" "[16 \<mapsto> ScriptSource_new\<lparr>refs := 1\<rparr>]"
      "ScriptSource_new\<lparr>refs := 1\<rparr>"]
  by (simp add: nullptr_def ScriptSource_new_def)

section \<open>Properties of the script data table\<close>

lemma ArrayEqual_from_iff:
  "ArrayEqual_from i a b n \<longleftrightarrow> (\<forall>j. i \<le> j \<and> j < n \<longrightarrow> a j = b j)"
proof (induction i a b n rule: ArrayEqual_from.induct)
  case (1 i a b n)
  show ?case
  proof (cases "i < n")
    case False
    then show ?thesis by (auto simp: ArrayEqual_from.simps [of i])
  next
    case True
    show ?thesis
    proof (cases "a i = b i")
      case False
      then show ?thesis using True by (auto simp: ArrayEqual_from.simps [of i])
    next
      case eq: True
      have "ArrayEqual_from i a b n = ArrayEqual_from (Suc i) a b n"
        using True eq by (simp add: ArrayEqual_from.simps [of i])
      also have "\<dots> \<longleftrightarrow> (\<forall>j. Suc i \<le> j \<and> j < n \<longrightarrow> a j = b j)"
        using "1.IH" True eq by simp
      also have "\<dots> \<longleftrightarrow> (\<forall>j. i \<le> j \<and> j < n \<longrightarrow> a j = b j)"
        using eq by (metis Suc_leD Suc_leI le_neq_implies_less)
      finally show ?thesis .
    qed
  qed
qed

lemma ArrayEqual_iff: "ArrayEqual a b n \<longleftrightarrow> (\<forall>j < n. a j = b j)"
  by (simp add: ArrayEqual_def ArrayEqual_from_iff)

lemma match_iff_identical:
  "ScriptBytecodeHasher_match sz entry lk \<longleftrightarrow> structurally_identical sz entry (scriptData lk)"
  by (auto simp: ScriptBytecodeHasher_match_def structurally_identical_def Let_def
      natoms_def codeLength_def numNotes_def ArrayEqual_iff)

lemma identical_dataLength:
  "structurally_identical sz a b \<Longrightarrow> dataLength sz a = dataLength sz b"
  by (simp add: structurally_identical_def dataLength_def)

lemma identical_refl: "structurally_identical sz a a"
  by (simp add: structurally_identical_def)

lemma identical_sym: "structurally_identical sz a b \<Longrightarrow> structurally_identical sz b a"
  using identical_dataLength [of sz a b] by (simp add: structurally_identical_def)

lemma identical_trans:
  "structurally_identical sz a b \<Longrightarrow> structurally_identical sz b c \<Longrightarrow> structurally_identical sz a c"
  using identical_dataLength [of sz b c] by (simp add: structurally_identical_def)

lemma identical_incRefCount [simp]:
  "structurally_identical sz (incRefCount a) b = structurally_identical sz a b"
  "structurally_identical sz a (incRefCount b) = structurally_identical sz a b"
  by (simp_all add: structurally_identical_def incRefCount_def dataLength_def)

lemma matches_at_iff:
  "matches_at sz st c e \<longleftrightarrow> (\<exists>a. st e = Some a \<and> structurally_identical sz a c)"
  by (simp add: matches_at_def match_iff_identical split: option.splits)

lemma find_unique:
  assumes "e \<in> set xs" and "P e" and "\<And>x. x \<in> set xs \<Longrightarrow> P x \<Longrightarrow> x = e"
  shows "find P xs = Some e"
proof (cases "find P xs")
  case None
  then show ?thesis using assms(1,2) by (simp add: find_None_iff)
next
  case (Some x)
  then have "x \<in> set xs \<and> P x" by (auto simp: find_Some_iff)
  then show ?thesis using assms(3) Some by simp
qed

lemma deduplicatedD:
  assumes "deduplicated sz t" and "x \<in> set (entries t)" and "y \<in> set (entries t)"
    and "blocks t x = Some a" and "blocks t y = Some b" and "structurally_identical sz a b"
  shows "x = y"
  using assms unfolding deduplicated_def by fastforce

lemma deduplicated_alive:
  assumes "deduplicated sz t" and "x \<in> set (entries t)"
  shows "\<exists>a. blocks t x = Some a"
  using assms unfolding deduplicated_def by (fastforce split: option.splits)

lemma intern_hit:
  assumes d: "deduplicated sz t"
    and c: "blocks t cand = Some c"
    and e: "e \<in> set (entries t)" "blocks t e = Some entry"
    and m: "structurally_identical sz entry c"
  shows "intern sz cand t =
           Inr (e, t\<lparr>blocks := (blocks t)(cand := None, e \<mapsto> incRefCount entry)\<rparr>)"
proof -
  have u: "x = e" if "x \<in> set (entries t)" and "matches_at sz (blocks t) c x" for x
  proof -
    from that(2) obtain a where a: "blocks t x = Some a" "structurally_identical sz a c"
      by (auto simp: matches_at_iff)
    have "structurally_identical sz a entry"
      using a(2) m identical_sym identical_trans by blast
    then show ?thesis using deduplicatedD [OF d that(1) e(1) a(1) e(2)] by simp
  qed
  have "matches_at sz (blocks t) c e" using e m by (simp add: matches_at_iff)
  then have "find (matches_at sz (blocks t) c) (entries t) = Some e"
    using find_unique [of e "entries t" "matches_at sz (blocks t) c"] e(1) u by blast
  then show ?thesis using c e(2) by (simp add: intern_def)
qed

lemma deduplicated_alt:
  "deduplicated sz t \<longleftrightarrow>
     distinct (entries t) \<and>
     (\<forall>x \<in> set (entries t). \<exists>a. blocks t x = Some a) \<and>
     (\<forall>x \<in> set (entries t). \<forall>y \<in> set (entries t). \<forall>a b.
        blocks t x = Some a \<longrightarrow> blocks t y = Some b \<longrightarrow> structurally_identical sz a b \<longrightarrow> x = y)"
  (is "?L \<longleftrightarrow> ?R")
proof
  assume l: ?L
  show ?R
    using l deduplicated_alive [OF l] deduplicatedD [OF l]
    by (auto simp: deduplicated_def)
next
  assume r: ?R
  show ?L
    unfolding deduplicated_def
  proof (intro conjI ballI)
    show "distinct (entries t)" using r by simp
  next
    fix x y assume xy: "x \<in> set (entries t)" "y \<in> set (entries t)"
    from r xy obtain a b where ab: "blocks t x = Some a" "blocks t y = Some b" by blast
    have "structurally_identical sz a b \<longrightarrow> x = y" using r xy ab by blast
    then show "case (blocks t x, blocks t y) of
        (Some a, Some b) \<Rightarrow> structurally_identical sz a b \<longrightarrow> x = y | _ \<Rightarrow> False"
      using ab by simp
  qed
qed

lemma intern_miss:
  assumes "blocks t cand = Some c"
    and "find (matches_at sz (blocks t) c) (entries t) = None"
  shows "intern sz cand t =
           Inr (cand, t\<lparr>blocks := (blocks t)(cand \<mapsto> incRefCount c),
                         entries := entries t @ [cand]\<rparr>)"
  using assms by (simp add: intern_def)

lemma intern_preserves_deduplicated:
  assumes d: "deduplicated sz t"
    and c: "blocks t cand = Some c"
    and fresh: "cand \<notin> set (entries t)"
    and i: "intern sz cand t = Inr (r, t')"
  shows "deduplicated sz t'"
proof (cases "find (matches_at sz (blocks t) c) (entries t)")
  case None
  then have t': "t' = t\<lparr>blocks := (blocks t)(cand \<mapsto> incRefCount c),
                         entries := entries t @ [cand]\<rparr>"
    using i intern_miss [OF c None] by auto
  have nomatch: "\<not> structurally_identical sz a c"
    if "x \<in> set (entries t)" and "blocks t x = Some a" for x a
    using None that by (auto simp: find_None_iff matches_at_iff)
  have nomatch': "\<not> structurally_identical sz c a"
    if "x \<in> set (entries t)" and "blocks t x = Some a" for x a
    using nomatch [OF that] identical_sym by blast
  have old: "x = y"
    if "x \<in> set (entries t)" "y \<in> set (entries t)" "blocks t x = Some a" "blocks t y = Some b"
      "structurally_identical sz a b" for x y a b
    using deduplicatedD [OF d that] .
  have alive: "\<exists>a. blocks t x = Some a" if "x \<in> set (entries t)" for x
    using deduplicated_alive [OF d that] .
  have dist: "distinct (entries t)" using d by (simp add: deduplicated_def)
  show ?thesis
    unfolding deduplicated_alt t'
  proof (intro conjI ballI allI impI)
    show "distinct (entries (t\<lparr>blocks := (blocks t)(cand \<mapsto> incRefCount c),
        entries := entries t @ [cand]\<rparr>))"
      using dist fresh by simp
  next
    fix x
    assume "x \<in> set (entries (t\<lparr>blocks := (blocks t)(cand \<mapsto> incRefCount c),
        entries := entries t @ [cand]\<rparr>))"
    then show "\<exists>a. blocks (t\<lparr>blocks := (blocks t)(cand \<mapsto> incRefCount c),
        entries := entries t @ [cand]\<rparr>) x = Some a"
      using alive by auto
  next
    fix x y a b
    assume x: "x \<in> set (entries (t\<lparr>blocks := (blocks t)(cand \<mapsto> incRefCount c),
        entries := entries t @ [cand]\<rparr>))"
      and y: "y \<in> set (entries (t\<lparr>blocks := (blocks t)(cand \<mapsto> incRefCount c),
        entries := entries t @ [cand]\<rparr>))"
      and a: "blocks (t\<lparr>blocks := (blocks t)(cand \<mapsto> incRefCount c),
        entries := entries t @ [cand]\<rparr>) x = Some a"
      and b: "blocks (t\<lparr>blocks := (blocks t)(cand \<mapsto> incRefCount c),
        entries := entries t @ [cand]\<rparr>) y = Some b"
      and s: "structurally_identical sz a b"
    show "x = y"
    proof (cases "x = cand")
      case xc: True
      show ?thesis
      proof (cases "y = cand")
        case True
        then show ?thesis using xc by simp
      next
        case False
        then have "y \<in> set (entries t)" "blocks t y = Some b" using y b by auto
        moreover have "a = incRefCount c" using a xc by simp
        ultimately show ?thesis using nomatch' s by auto
      qed
    next
      case xc: False
      then have x': "x \<in> set (entries t)" "blocks t x = Some a" using x a by auto
      show ?thesis
      proof (cases "y = cand")
        case True
        then have "b = incRefCount c" using b by simp
        then show ?thesis using nomatch [OF x'] s by auto
      next
        case False
        then have "y \<in> set (entries t)" "blocks t y = Some b" using y b by auto
        then show ?thesis using old x' s by blast
      qed
    qed
  qed
next
  case (Some e)
  then have e: "e \<in> set (entries t)" "matches_at sz (blocks t) c e"
    by (auto simp: find_Some_iff)
  then obtain entry where entry: "blocks t e = Some entry" "structurally_identical sz entry c"
    by (auto simp: matches_at_iff)
  have t': "t' = t\<lparr>blocks := (blocks t)(cand := None, e \<mapsto> incRefCount entry)\<rparr>"
    using i c Some entry(1) by (auto simp: intern_def)
  have ne: "e \<noteq> cand" using e(1) fresh by auto
  have old: "x = y"
    if "x \<in> set (entries t)" "y \<in> set (entries t)" "blocks t x = Some a" "blocks t y = Some b"
      "structurally_identical sz a b" for x y a b
    using deduplicatedD [OF d that] .
  have alive: "\<exists>a. blocks t x = Some a" if "x \<in> set (entries t)" for x
    using deduplicated_alive [OF d that] .
  have dist: "distinct (entries t)" using d by (simp add: deduplicated_def)
  have look: "\<exists>a'. blocks t x = Some a' \<and>
      (\<forall>b. structurally_identical sz a b = structurally_identical sz a' b) \<and>
      (\<forall>b. structurally_identical sz b a = structurally_identical sz b a')"
    if "x \<in> set (entries t)"
      and "((blocks t)(cand := None, e \<mapsto> incRefCount entry)) x = Some a" for x a
  proof (cases "x = e")
    case True
    then show ?thesis using that(2) entry(1) by auto
  next
    case False
    have "x \<noteq> cand" using that(1) fresh by auto
    then show ?thesis using that(2) False by simp
  qed
  show ?thesis
    unfolding deduplicated_alt t'
  proof (intro conjI ballI allI impI)
    show "distinct (entries (t\<lparr>blocks := (blocks t)(cand := None, e \<mapsto> incRefCount entry)\<rparr>))"
      using dist by simp
  next
    fix x
    assume "x \<in> set (entries (t\<lparr>blocks := (blocks t)(cand := None, e \<mapsto> incRefCount entry)\<rparr>))"
    then show "\<exists>a. blocks (t\<lparr>blocks := (blocks t)(cand := None, e \<mapsto> incRefCount entry)\<rparr>) x = Some a"
      using alive fresh by auto
  next
    fix x y a b
    assume x: "x \<in> set (entries (t\<lparr>blocks := (blocks t)(cand := None, e \<mapsto> incRefCount entry)\<rparr>))"
      and y: "y \<in> set (entries (t\<lparr>blocks := (blocks t)(cand := None, e \<mapsto> incRefCount entry)\<rparr>))"
      and a: "blocks (t\<lparr>blocks := (blocks t)(cand := None, e \<mapsto> incRefCount entry)\<rparr>) x = Some a"
      and b: "blocks (t\<lparr>blocks := (blocks t)(cand := None, e \<mapsto> incRefCount entry)\<rparr>) y = Some b"
      and s: "structurally_identical sz a b"
    have x': "x \<in> set (entries t)" and y': "y \<in> set (entries t)" using x y by simp_all
    from look [OF x'] a obtain a' where a': "blocks t x = Some a'"
      "\<forall>b. structurally_identical sz a b = structurally_identical sz a' b" by auto
    from look [OF y'] b obtain b' where b': "blocks t y = Some b'"
      "\<forall>a. structurally_identical sz a b = structurally_identical sz a b'" by auto
    have "structurally_identical sz a' b'" using s a'(2) b'(2) by simp
    then show "x = y" using old [OF x' y' a'(1) b'(1)] by simp
  qed
qed

text \<open>
  Claim C1. The match predicate of the table holds if and only if the atom counts, the
  code lengths and the note lengths of the two blocks are equal and their payloads agree
  byte for byte on the first \<open>dataLength\<close> bytes. Hence interning a candidate that is
  structurally identical to a registered block returns the address of that registered
  block, with its reference count one higher, discards the candidate and leaves the
  entries of the table as they were; and interning keeps the table deduplicated (no two
  entries structurally identical), starting from the empty table.
\<close>

theorem intern_dedup_structural:
  "(ScriptBytecodeHasher_match sz entry lk \<longleftrightarrow>
      natoms' entry = natoms' (scriptData lk) \<and>
      codeLength' entry = codeLength' (scriptData lk) \<and>
      noteLength' entry = noteLength' (scriptData lk) \<and>
      (\<forall>i < unat (dataLength sz (scriptData lk)). data' entry i = data' (scriptData lk) i))
   \<and> (deduplicated sz t \<and> blocks t cand = Some c \<and> cand \<notin> set (entries t) \<and>
        e \<in> set (entries t) \<and> blocks t e = Some shared \<and> structurally_identical sz shared c \<longrightarrow>
          intern sz cand t =
            Inr (e, t\<lparr>blocks := (blocks t)(cand := None, e \<mapsto> incRefCount shared)\<rparr>))
   \<and> (deduplicated sz t \<and> blocks t cand = Some c \<and> cand \<notin> set (entries t) \<and>
        intern sz cand t = Inr (r, t') \<longrightarrow> deduplicated sz t')
   \<and> deduplicated sz \<lparr>blocks = st, entries = []\<rparr>"
proof -
  have a: "ScriptBytecodeHasher_match sz entry lk \<longleftrightarrow>
      natoms' entry = natoms' (scriptData lk) \<and>
      codeLength' entry = codeLength' (scriptData lk) \<and>
      noteLength' entry = noteLength' (scriptData lk) \<and>
      (\<forall>i < unat (dataLength sz (scriptData lk)). data' entry i = data' (scriptData lk) i)"
    by (simp add: match_iff_identical structurally_identical_def)
  have b: "deduplicated sz t \<and> blocks t cand = Some c \<and> cand \<notin> set (entries t) \<and>
        e \<in> set (entries t) \<and> blocks t e = Some shared \<and> structurally_identical sz shared c \<longrightarrow>
          intern sz cand t =
            Inr (e, t\<lparr>blocks := (blocks t)(cand := None, e \<mapsto> incRefCount shared)\<rparr>)"
    using intern_hit [of sz t cand c e shared] by blast
  have c: "deduplicated sz t \<and> blocks t cand = Some c \<and> cand \<notin> set (entries t) \<and>
        intern sz cand t = Inr (r, t') \<longrightarrow> deduplicated sz t'"
    using intern_preserves_deduplicated [of sz t cand c r t'] by blast
  have d: "deduplicated sz \<lparr>blocks = st, entries = []\<rparr>"
    by (simp add: deduplicated_def)
  from a b c d show ?thesis by blast
qed

theorem intern_dedup_structural_witness:
  "deduplicated 8
     \<lparr>blocks = [16 \<mapsto> \<lparr>refCount' = 2, natoms' = 0, codeLength' = 2, noteLength' = 1,
                         data' = (\<lambda>i. if i = 0 then 7 else 0)\<rparr>,
                 32 \<mapsto> \<lparr>refCount' = 1, natoms' = 0, codeLength' = 2, noteLength' = 1,
                         data' = (\<lambda>i. if i = 0 then 7 else if i = 5 then 9 else 0)\<rparr>],
      entries = [16]\<rparr>
   \<and> structurally_identical 8
       \<lparr>refCount' = 2, natoms' = 0, codeLength' = 2, noteLength' = 1,
         data' = (\<lambda>i. if i = 0 then 7 else 0)\<rparr>
       \<lparr>refCount' = 1, natoms' = 0, codeLength' = 2, noteLength' = 1,
         data' = (\<lambda>i. if i = 0 then 7 else if i = 5 then 9 else 0)\<rparr>
   \<and> intern 8 32
       \<lparr>blocks = [16 \<mapsto> \<lparr>refCount' = 2, natoms' = 0, codeLength' = 2, noteLength' = 1,
                           data' = (\<lambda>i. if i = 0 then 7 else 0)\<rparr>,
                   32 \<mapsto> \<lparr>refCount' = 1, natoms' = 0, codeLength' = 2, noteLength' = 1,
                           data' = (\<lambda>i. if i = 0 then 7 else if i = 5 then 9 else 0)\<rparr>],
        entries = [16]\<rparr>
     = Inr (16,
       \<lparr>blocks = [16 \<mapsto> \<lparr>refCount' = 3, natoms' = 0, codeLength' = 2, noteLength' = 1,
                           data' = (\<lambda>i. if i = 0 then 7 else 0)\<rparr>],
        entries = [16]\<rparr>)"
proof -
  let ?A = "\<lparr>refCount' = 2, natoms' = 0, codeLength' = 2, noteLength' = 1,
             data' = (\<lambda>i. if i = 0 then (7::uint8_t) else 0)\<rparr>"
  let ?B = "\<lparr>refCount' = 1, natoms' = 0, codeLength' = 2, noteLength' = 1,
             data' = (\<lambda>i. if i = 0 then (7::uint8_t) else if i = 5 then 9 else 0)\<rparr>"
  let ?T = "\<lparr>blocks = [(16::ptr) \<mapsto> ?A, 32 \<mapsto> ?B], entries = [16]\<rparr>"
  have s: "structurally_identical 8 ?A ?B"
    by (simp add: structurally_identical_def dataLength_def)
  have d: "deduplicated 8 ?T"
    by (simp add: deduplicated_def)
  have i: "intern 8 32 ?T = Inr (16, ?T\<lparr>blocks := (blocks ?T)(32 := None, 16 \<mapsto> incRefCount ?A)\<rparr>)"
    using intern_dedup_structural [where sz = 8 and t = ?T and cand = 32 and c = ?B
        and e = 16 and shared = ?A] s d
    by simp
  have m: "(blocks ?T)(32 := None, 16 \<mapsto> incRefCount ?A) = [16 \<mapsto> ?A\<lparr>refCount' := 3\<rparr>]"
    by (rule ext) (simp add: incRefCount_def)
  from s d i m show ?thesis by simp
qed

section \<open>Properties of the trailing arrays\<close>

lemma OFF_present_iff:
  "sizeof_t \<noteq> 0 \<Longrightarrow> OFF fooOff hasFoo sizeof_t = fooOff + sizeof_t \<longleftrightarrow> hasFoo"
  by (simp add: OFF_def)

lemma OFF_absent: "\<not> hasFoo \<Longrightarrow> OFF fooOff hasFoo sizeof_t = fooOff"
  by (simp add: OFF_def)

lemma hasArray_bit:
  "hasArray s kind = bit (hasArrayBits' (bitFields' s)) (ArrayKind_value kind)"
proof -
  have k: "ArrayKind_value kind < 4" by (cases kind) simp_all
  have "(ucast (hasArrayBits' (bitFields' s)) AND push_bit (ArrayKind_value kind) (1 :: 32 word)) \<noteq> 0
      \<longleftrightarrow> bit (ucast (hasArrayBits' (bitFields' s)) :: 32 word) (ArrayKind_value kind)"
    by (simp add: and_exp_eq_0_iff_not_bit)
  also have "\<dots> \<longleftrightarrow> bit (hasArrayBits' (bitFields' s)) (ArrayKind_value kind)"
    using k by (simp add: bit_ucast_iff)
  finally show ?thesis by (simp add: hasArray_def)
qed

text \<open>
  Claim C5. For every value of the presence bits: \<open>scopesOffset\<close> is 0, \<open>constsOffset\<close>
  is \<open>scopesOffset\<close> plus the size of the scope array header, and each later offset
  (objects, trynotes, scopeNotes, yieldAndAwaitOffsets) is the offset of the array before
  it plus that array's header size when that array is present and plus zero when it is
  absent; with a header size that is not zero, the offset exceeds its predecessor by the
  header size if and only if the predecessor is present. The presence of an array is its
  bit of \<open>hasArrayBits\<close>. Consequently two scripts that agree on the presence of the
  arrays before array N have the same offset for array N, whatever their other bits.
\<close>

theorem trailing_array_offsets:
  "scopesOffset sz s = 0
   \<and> constsOffset sz s = scopesOffset sz s + sizeof_ScopeArray sz
   \<and> objectsOffset sz s = constsOffset sz s + (if hasConsts s then sizeof_ConstArray sz else 0)
   \<and> trynotesOffset sz s = objectsOffset sz s + (if hasObjects s then sizeof_ObjectArray sz else 0)
   \<and> scopeNotesOffset sz s =
       trynotesOffset sz s + (if hasTrynotes s then sizeof_TryNoteArray sz else 0)
   \<and> yieldAndAwaitOffsetsOffset sz s =
       scopeNotesOffset sz s + (if hasScopeNotes s then sizeof_ScopeNoteArray sz else 0)
   \<and> (sizeof_ConstArray sz \<noteq> 0 \<longrightarrow>
        (objectsOffset sz s = constsOffset sz s + sizeof_ConstArray sz \<longleftrightarrow> hasConsts s))
   \<and> (sizeof_ObjectArray sz \<noteq> 0 \<longrightarrow>
        (trynotesOffset sz s = objectsOffset sz s + sizeof_ObjectArray sz \<longleftrightarrow> hasObjects s))
   \<and> (sizeof_TryNoteArray sz \<noteq> 0 \<longrightarrow>
        (scopeNotesOffset sz s = trynotesOffset sz s + sizeof_TryNoteArray sz \<longleftrightarrow> hasTrynotes s))
   \<and> (sizeof_ScopeNoteArray sz \<noteq> 0 \<longrightarrow>
        (yieldAndAwaitOffsetsOffset sz s = scopeNotesOffset sz s + sizeof_ScopeNoteArray sz
           \<longleftrightarrow> hasScopeNotes s))
   \<and> (hasConsts s \<longleftrightarrow> bit (hasArrayBits' (bitFields' s)) 0)
   \<and> (hasObjects s \<longleftrightarrow> bit (hasArrayBits' (bitFields' s)) 1)
   \<and> (hasTrynotes s \<longleftrightarrow> bit (hasArrayBits' (bitFields' s)) 2)
   \<and> (hasScopeNotes s \<longleftrightarrow> bit (hasArrayBits' (bitFields' s)) 3)
   \<and> scopesOffset sz s = scopesOffset sz s'
   \<and> constsOffset sz s = constsOffset sz s'
   \<and> (hasConsts s = hasConsts s' \<longrightarrow> objectsOffset sz s = objectsOffset sz s')
   \<and> (hasConsts s = hasConsts s' \<and> hasObjects s = hasObjects s' \<longrightarrow>
        trynotesOffset sz s = trynotesOffset sz s')
   \<and> (hasConsts s = hasConsts s' \<and> hasObjects s = hasObjects s' \<and> hasTrynotes s = hasTrynotes s' \<longrightarrow>
        scopeNotesOffset sz s = scopeNotesOffset sz s')
   \<and> (hasConsts s = hasConsts s' \<and> hasObjects s = hasObjects s' \<and> hasTrynotes s = hasTrynotes s' \<and>
        hasScopeNotes s = hasScopeNotes s' \<longrightarrow>
        yieldAndAwaitOffsetsOffset sz s = yieldAndAwaitOffsetsOffset sz s')"
proof -
  have bits: "(hasConsts s \<longleftrightarrow> bit (hasArrayBits' (bitFields' s)) 0)
      \<and> (hasObjects s \<longleftrightarrow> bit (hasArrayBits' (bitFields' s)) 1)
      \<and> (hasTrynotes s \<longleftrightarrow> bit (hasArrayBits' (bitFields' s)) 2)
      \<and> (hasScopeNotes s \<longleftrightarrow> bit (hasArrayBits' (bitFields' s)) 3)"
    using hasArray_bit [of s CONSTS] hasArray_bit [of s OBJECTS]
      hasArray_bit [of s TRYNOTES] hasArray_bit [of s SCOPENOTES]
    by (simp add: hasConsts_def hasObjects_def hasTrynotes_def hasScopeNotes_def)
  have offs: "scopesOffset sz s = 0
   \<and> constsOffset sz s = scopesOffset sz s + sizeof_ScopeArray sz
   \<and> objectsOffset sz s = constsOffset sz s + (if hasConsts s then sizeof_ConstArray sz else 0)
   \<and> trynotesOffset sz s = objectsOffset sz s + (if hasObjects s then sizeof_ObjectArray sz else 0)
   \<and> scopeNotesOffset sz s =
       trynotesOffset sz s + (if hasTrynotes s then sizeof_TryNoteArray sz else 0)
   \<and> yieldAndAwaitOffsetsOffset sz s =
       scopeNotesOffset sz s + (if hasScopeNotes s then sizeof_ScopeNoteArray sz else 0)"
    by (simp add: scopesOffset_def constsOffset_def objectsOffset_def trynotesOffset_def
        scopeNotesOffset_def yieldAndAwaitOffsetsOffset_def OFF_def)
  have iffs: "(sizeof_ConstArray sz \<noteq> 0 \<longrightarrow>
        (objectsOffset sz s = constsOffset sz s + sizeof_ConstArray sz \<longleftrightarrow> hasConsts s))
   \<and> (sizeof_ObjectArray sz \<noteq> 0 \<longrightarrow>
        (trynotesOffset sz s = objectsOffset sz s + sizeof_ObjectArray sz \<longleftrightarrow> hasObjects s))
   \<and> (sizeof_TryNoteArray sz \<noteq> 0 \<longrightarrow>
        (scopeNotesOffset sz s = trynotesOffset sz s + sizeof_TryNoteArray sz \<longleftrightarrow> hasTrynotes s))
   \<and> (sizeof_ScopeNoteArray sz \<noteq> 0 \<longrightarrow>
        (yieldAndAwaitOffsetsOffset sz s = scopeNotesOffset sz s + sizeof_ScopeNoteArray sz
           \<longleftrightarrow> hasScopeNotes s))"
    by (simp add: objectsOffset_def trynotesOffset_def
        scopeNotesOffset_def yieldAndAwaitOffsetsOffset_def OFF_present_iff)
  have deps: "scopesOffset sz s = scopesOffset sz s'
   \<and> constsOffset sz s = constsOffset sz s'
   \<and> (hasConsts s = hasConsts s' \<longrightarrow> objectsOffset sz s = objectsOffset sz s')
   \<and> (hasConsts s = hasConsts s' \<and> hasObjects s = hasObjects s' \<longrightarrow>
        trynotesOffset sz s = trynotesOffset sz s')
   \<and> (hasConsts s = hasConsts s' \<and> hasObjects s = hasObjects s' \<and> hasTrynotes s = hasTrynotes s' \<longrightarrow>
        scopeNotesOffset sz s = scopeNotesOffset sz s')
   \<and> (hasConsts s = hasConsts s' \<and> hasObjects s = hasObjects s' \<and> hasTrynotes s = hasTrynotes s' \<and>
        hasScopeNotes s = hasScopeNotes s' \<longrightarrow>
        yieldAndAwaitOffsetsOffset sz s = yieldAndAwaitOffsetsOffset sz s')"
    by (simp add: scopesOffset_def constsOffset_def objectsOffset_def trynotesOffset_def
        scopeNotesOffset_def yieldAndAwaitOffsetsOffset_def OFF_def)
  from bits offs iffs deps show ?thesis by blast
qed

theorem trailing_array_offsets_witness:
  "sizeof_ConstArray \<lparr>sizeof_ScopeArray = 16, sizeof_ConstArray = 16, sizeof_ObjectArray = 16,
       sizeof_TryNoteArray = 16, sizeof_ScopeNoteArray = 16\<rparr> \<noteq> 0
   \<and> hasConsts (setHasArray (setHasArray JSScript_new CONSTS) TRYNOTES)
   \<and> \<not> hasObjects (setHasArray (setHasArray JSScript_new CONSTS) TRYNOTES)
   \<and> hasTrynotes (setHasArray (setHasArray JSScript_new CONSTS) TRYNOTES)
   \<and> objectsOffset \<lparr>sizeof_ScopeArray = 16, sizeof_ConstArray = 16, sizeof_ObjectArray = 16,
       sizeof_TryNoteArray = 16, sizeof_ScopeNoteArray = 16\<rparr>
       (setHasArray (setHasArray JSScript_new CONSTS) TRYNOTES) = 32
   \<and> trynotesOffset \<lparr>sizeof_ScopeArray = 16, sizeof_ConstArray = 16, sizeof_ObjectArray = 16,
       sizeof_TryNoteArray = 16, sizeof_ScopeNoteArray = 16\<rparr>
       (setHasArray (setHasArray JSScript_new CONSTS) TRYNOTES) = 32
   \<and> scopeNotesOffset \<lparr>sizeof_ScopeArray = 16, sizeof_ConstArray = 16, sizeof_ObjectArray = 16,
       sizeof_TryNoteArray = 16, sizeof_ScopeNoteArray = 16\<rparr>
       (setHasArray (setHasArray JSScript_new CONSTS) TRYNOTES) = 48
   \<and> scopeNotesOffset \<lparr>sizeof_ScopeArray = 16, sizeof_ConstArray = 16, sizeof_ObjectArray = 16,
       sizeof_TryNoteArray = 16, sizeof_ScopeNoteArray = 16\<rparr>
       (setHasArray (setHasArray (setHasArray JSScript_new CONSTS) TRYNOTES) SCOPENOTES) = 48
   \<and> yieldAndAwaitOffsetsOffset \<lparr>sizeof_ScopeArray = 16, sizeof_ConstArray = 16,
       sizeof_ObjectArray = 16, sizeof_TryNoteArray = 16, sizeof_ScopeNoteArray = 16\<rparr>
       (setHasArray (setHasArray (setHasArray JSScript_new CONSTS) TRYNOTES) SCOPENOTES) = 64"
proof -
  let ?sz = "\<lparr>sizeof_ScopeArray = 16, sizeof_ConstArray = 16, sizeof_ObjectArray = 16,
       sizeof_TryNoteArray = 16, sizeof_ScopeNoteArray = 16\<rparr>"
  let ?s = "setHasArray (setHasArray JSScript_new CONSTS) TRYNOTES"
  have b: "hasArrayBits' (bitFields' ?s) = 5"
      "hasArrayBits' (bitFields' (setHasArray ?s SCOPENOTES)) = 13"
    by (simp_all add: setHasArray_def JSScript_new_def BitFields_zero_def)
  show ?thesis
    using trailing_array_offsets [of ?sz ?s "setHasArray ?s SCOPENOTES"]
      trailing_array_offsets [of ?sz "setHasArray ?s SCOPENOTES" ?s] b
    by simp
qed

section \<open>Properties of the JIT slots\<close>

lemma sentinels_distinct [simp]:
  "ION_DISABLED_SCRIPT \<noteq> nullptr" "ION_COMPILING_SCRIPT \<noteq> nullptr" "ION_PENDING_SCRIPT \<noteq> nullptr"
  "ION_COMPILING_SCRIPT \<noteq> ION_DISABLED_SCRIPT" "ION_PENDING_SCRIPT \<noteq> ION_DISABLED_SCRIPT"
  "ION_PENDING_SCRIPT \<noteq> ION_COMPILING_SCRIPT" "BASELINE_DISABLED_SCRIPT \<noteq> nullptr"
  by (simp_all add: ION_DISABLED_SCRIPT_def ION_COMPILING_SCRIPT_def ION_PENDING_SCRIPT_def
      BASELINE_DISABLED_SCRIPT_def nullptr_def)

lemma hasIonScript_attached:
  "hasIonScript s = Inr True \<longleftrightarrow> optimizingAttached s \<and> baseline s \<noteq> nullptr"
  by (auto simp: hasIonScript_def optimizingAttached_def Let_def)





lemma tier_step_disabled:
  assumes "tier_step opr s = Inr s'"
  shows "(ion s = ION_DISABLED_SCRIPT \<longrightarrow> ion s' = ION_DISABLED_SCRIPT) \<and>
     (baseline s = BASELINE_DISABLED_SCRIPT \<longrightarrow> baseline s' = BASELINE_DISABLED_SCRIPT)"
proof (cases opr)
  case (MarkCompiling tier)
  then show ?thesis using assms by (cases tier) (auto split: if_splits)
next
  case (AttachCode tier h)
  then show ?thesis using assms by (cases tier) (auto split: if_splits)
next
  case (Disable tier)
  then show ?thesis using assms by (cases tier) auto
next
  case MarkPendingLink
  then show ?thesis using assms by (auto simp: markPendingLink_def split: if_splits)
next
  case (LinkPending h)
  then show ?thesis using assms by (auto simp: linkPending_def split: if_splits)
next
  case DetachOptimizing
  then show ?thesis using assms by (auto simp: detachOptimizing_def split: if_splits)
qed

lemma tier_run_disabled:
  "tier_run ops s = Inr s' \<Longrightarrow>
     (ion s = ION_DISABLED_SCRIPT \<longrightarrow> ion s' = ION_DISABLED_SCRIPT) \<and>
     (baseline s = BASELINE_DISABLED_SCRIPT \<longrightarrow> baseline s' = BASELINE_DISABLED_SCRIPT)"
proof (induction ops arbitrary: s)
  case Nil
  then show ?case by simp
next
  case (Cons opr ops)
  from Cons.prems obtain s1 where s1: "tier_step opr s = Inr s1" "tier_run ops s1 = Inr s'"
    by (auto split: sum.splits)
  show ?case using tier_step_disabled [OF s1(1)] Cons.IH [OF s1(2)] by blast
qed




section \<open>Properties of relazification\<close>

lemma isRelazifiable_True_iff:
  "isRelazifiable s = Inr True \<longleftrightarrow>
     (selfHosted s \<or> lazyScript s \<noteq> nullptr) \<and> \<not> hasInnerFunctions s \<and> types' s = nullptr \<and>
     \<not> isGenerator s \<and> \<not> isAsync s \<and> \<not> isDefaultClassConstructor s \<and>
     hasBaselineScript s = Inr False \<and> hasAnyIonScript s = Inr False \<and>
     \<not> doNotRelazify' (bitFields' s)"
  by (auto simp: isRelazifiable_def hasInnerFunctions_def split: sum.splits if_splits)

lemma no_code_iff:
  "hasBaselineScript s = Inr False \<and> hasAnyIonScript s = Inr False \<longleftrightarrow>
     (baseline s = nullptr \<or> baseline s = BASELINE_DISABLED_SCRIPT) \<and>
     (ion s = nullptr \<or> ion s = ION_DISABLED_SCRIPT)"
  by (auto simp: hasBaselineScript_def hasAnyIonScript_def hasIonScript_def Let_def
      ION_DISABLED_SCRIPT_def ION_COMPILING_SCRIPT_def ION_PENDING_SCRIPT_def nullptr_def)

lemma isRelazifiable_debugger_independent:
  "isRelazifiable (s\<lparr>bitFields' := (bitFields' s)\<lparr>hasDebugScript' := d,
       hideScriptFromDebugger' := h\<rparr>\<rparr>) = isRelazifiable s"
  by (simp add: isRelazifiable_def selfHosted_def isGenerator_def isAsync_def
      isDefaultClassConstructor_def hasBaselineScript_def hasAnyIonScript_def hasIonScript_def)

text \<open>
  Claim C3, as stated, fails: it adds that eligibility requires no pending debugger
  hooks, but \<open>isRelazifiable\<close> reads no debugger state. A script that came from a lazy
  script, with a debug script attached (\<open>hasDebugScript\<close>) and the debugger's onNewScript
  hook still outstanding (\<open>hideScriptFromDebugger\<close>), is relazifiable.
\<close>

theorem isRelazifiable_debugger_counterexample:
  "isRelazifiable (JSScript_new\<lparr>lazyScript := 4096,
       bitFields' := BitFields_zero\<lparr>hasDebugScript' := True, hideScriptFromDebugger' := True\<rparr>\<rparr>)
     = Inr True
   \<and> hasAnyBreakpointsOrStepMode (JSScript_new\<lparr>lazyScript := 4096,
       bitFields' := BitFields_zero\<lparr>hasDebugScript' := True, hideScriptFromDebugger' := True\<rparr>\<rparr>)
   \<and> hideScriptFromDebugger (JSScript_new\<lparr>lazyScript := 4096,
       bitFields' := BitFields_zero\<lparr>hasDebugScript' := True, hideScriptFromDebugger' := True\<rparr>\<rparr>)"
  by (simp add: isRelazifiable_def selfHosted_def isGenerator_def isAsync_def
      isDefaultClassConstructor_def hasBaselineScript_def hasAnyIonScript_def hasIonScript_def
      JSScript_new_def BitFields_zero_def nullptr_def hasAnyBreakpointsOrStepMode_def
      hideScriptFromDebugger_def)

text \<open>
  Claim C3, amended. \<open>isRelazifiable\<close> returns true if and only if the script is self
  hosted or has a lazy script, records no inner functions, has no type data, is not a
  generator, not async, not a default class constructor, \<open>hasBaselineScript\<close> and
  \<open>hasAnyIonScript\<close> both return false (each slot is null or disabled), and
  \<open>doNotRelazify\<close> is not set. Its result does not depend on the debugger bits of the
  script.
\<close>

theorem isRelazifiable_conjunction:
  "(isRelazifiable s = Inr True \<longleftrightarrow>
      (selfHosted s \<or> lazyScript s \<noteq> nullptr) \<and> \<not> hasInnerFunctions s \<and> types' s = nullptr \<and>
      \<not> isGenerator s \<and> \<not> isAsync s \<and> \<not> isDefaultClassConstructor s \<and>
      hasBaselineScript s = Inr False \<and> hasAnyIonScript s = Inr False \<and>
      \<not> doNotRelazify' (bitFields' s))
   \<and> (hasBaselineScript s = Inr False \<and> hasAnyIonScript s = Inr False \<longleftrightarrow>
        (baseline s = nullptr \<or> baseline s = BASELINE_DISABLED_SCRIPT) \<and>
        (ion s = nullptr \<or> ion s = ION_DISABLED_SCRIPT))
   \<and> isRelazifiable (s\<lparr>bitFields' := (bitFields' s)\<lparr>hasDebugScript' := d,
         hideScriptFromDebugger' := h\<rparr>\<rparr>) = isRelazifiable s"
  using isRelazifiable_True_iff [of s] no_code_iff [of s]
    isRelazifiable_debugger_independent [where s = s and d = d and h = h]
  by blast

theorem isRelazifiable_conjunction_witness:
  "isRelazifiable (JSScript_new\<lparr>lazyScript := 4096\<rparr>) = Inr True
   \<and> isRelazifiable (JSScript_new\<lparr>lazyScript := 4096, baseline := 8192\<rparr>) = Inr False
   \<and> isRelazifiable (JSScript_new\<lparr>lazyScript := 4096,
        bitFields' := BitFields_zero\<lparr>hasDebugScript' := True, hideScriptFromDebugger' := True\<rparr>\<rparr>)
       = isRelazifiable (JSScript_new\<lparr>lazyScript := 4096, bitFields' := BitFields_zero\<rparr>)"
proof -
  have f: "isRelazifiable (JSScript_new\<lparr>lazyScript := 4096, baseline := 8192\<rparr>) = Inr False"
    by (simp add: isRelazifiable_def selfHosted_def isGenerator_def isAsync_def
      isDefaultClassConstructor_def hasBaselineScript_def hasAnyIonScript_def hasIonScript_def
      JSScript_new_def BitFields_zero_def nullptr_def BASELINE_DISABLED_SCRIPT_def)
  have u: "(JSScript_new\<lparr>lazyScript := 4096, bitFields' := BitFields_zero\<rparr>)
      \<lparr>bitFields' := (bitFields' (JSScript_new\<lparr>lazyScript := 4096, bitFields' := BitFields_zero\<rparr>))
          \<lparr>hasDebugScript' := True, hideScriptFromDebugger' := True\<rparr>\<rparr>
      = JSScript_new\<lparr>lazyScript := 4096,
        bitFields' := BitFields_zero\<lparr>hasDebugScript' := True, hideScriptFromDebugger' := True\<rparr>\<rparr>"
    by simp
  show ?thesis
    using isRelazifiable_conjunction [where s = "JSScript_new\<lparr>lazyScript := 4096\<rparr>"
        and d = True and h = True]
      isRelazifiable_conjunction [where
        s = "JSScript_new\<lparr>lazyScript := 4096, bitFields' := BitFields_zero\<rparr>"
        and d = True and h = True]
      f u
    by (simp add: selfHosted_def isGenerator_def isAsync_def hasInnerFunctions_def
      isDefaultClassConstructor_def hasBaselineScript_def hasAnyIonScript_def hasIonScript_def
      JSScript_new_def BitFields_zero_def nullptr_def)
qed

section \<open>Properties of the eval cache flags\<close>

lemma cacheForEval_iff:
  "cacheForEval s = Inr s' \<longleftrightarrow>
     isActiveEval s \<and> \<not> isCachedEval s \<and>
     s' = s\<lparr>bitFields' := (bitFields' s)\<lparr>isActiveEval' := False, isCachedEval' := True,
                                              hasRunOnce' := False\<rparr>\<rparr>"
  by (auto simp: cacheForEval_def)

lemma uncacheForEval_iff:
  "uncacheForEval s = Inr s' \<longleftrightarrow>
     isCachedEval s \<and> \<not> isActiveEval s \<and>
     s' = s\<lparr>bitFields' := (bitFields' s)\<lparr>isCachedEval' := False, isActiveEval' := True\<rparr>\<rparr>"
  by (auto simp: uncacheForEval_def)

lemma cacheForEval_fails:
  "cacheForEval s = Inl e \<longleftrightarrow> e = AssertionFailure \<and> \<not> (isActiveEval s \<and> \<not> isCachedEval s)"
  by (auto simp: cacheForEval_def)

lemma uncacheForEval_fails:
  "uncacheForEval s = Inl e \<longleftrightarrow> e = AssertionFailure \<and> \<not> (isCachedEval s \<and> \<not> isActiveEval s)"
  by (auto simp: uncacheForEval_def)

lemma eval_step_exclusive:
  assumes "eval_step opr s = Inr s'" and "opr = SetActiveEval \<longrightarrow> \<not> isCachedEval s"
  shows "eval_flags_exclusive s'"
proof (cases opr)
  case SetActiveEval
  then show ?thesis
    using assms by (auto simp: eval_flags_exclusive_def setActiveEval_def isCachedEval_def isActiveEval_def)
next
  case CacheForEval
  then show ?thesis
    using assms(1) by (auto simp: cacheForEval_iff eval_flags_exclusive_def isCachedEval_def isActiveEval_def)
next
  case UncacheForEval
  then show ?thesis
    using assms(1) by (auto simp: uncacheForEval_iff eval_flags_exclusive_def isCachedEval_def isActiveEval_def)
qed

lemma eval_run_exclusive:
  "eval_flags_exclusive s \<Longrightarrow> disciplined ops s \<Longrightarrow> eval_run ops s = Inr s' \<Longrightarrow>
     eval_flags_exclusive s'"
proof (induction ops arbitrary: s)
  case Nil
  then show ?case by simp
next
  case (Cons opr ops)
  from Cons.prems(3) obtain s1 where s1: "eval_step opr s = Inr s1" "eval_run ops s1 = Inr s'"
    by (auto split: sum.splits)
  have g: "opr = SetActiveEval \<longrightarrow> \<not> isCachedEval s" using Cons.prems(2) by simp
  have e1: "eval_flags_exclusive s1" using eval_step_exclusive [OF s1(1) g] .
  have d1: "disciplined ops s1" using Cons.prems(2) s1(1) by simp
  show ?case using Cons.IH [OF e1 d1 s1(2)] .
qed

text \<open>
  Claim C10, as stated, fails: the flags are not exclusive in every state the member
  functions reach. \<open>setActiveEval\<close> sets the active flag without an assertion, also on a
  script that is in the eval cache: after \<open>setActiveEval\<close>, \<open>cacheForEval\<close>,
  \<open>setActiveEval\<close> on a new script both flags are set.
\<close>

theorem eval_cache_flags_counterexample:
  "eval_run [SetActiveEval, CacheForEval, SetActiveEval] JSScript_new =
     Inr (JSScript_new\<lparr>bitFields' := BitFields_zero\<lparr>isActiveEval' := True, isCachedEval' := True\<rparr>\<rparr>)
   \<and> isActiveEval (JSScript_new\<lparr>bitFields' := BitFields_zero\<lparr>isActiveEval' := True,
         isCachedEval' := True\<rparr>\<rparr>)
   \<and> isCachedEval (JSScript_new\<lparr>bitFields' := BitFields_zero\<lparr>isActiveEval' := True,
         isCachedEval' := True\<rparr>\<rparr>)
   \<and> \<not> eval_flags_exclusive (JSScript_new\<lparr>bitFields' := BitFields_zero\<lparr>isActiveEval' := True,
         isCachedEval' := True\<rparr>\<rparr>)"
  by (simp add: JSScript_new_def BitFields_zero_def setActiveEval_def cacheForEval_def
      isActiveEval_def isCachedEval_def eval_flags_exclusive_def)

text \<open>
  Claim C10, amended. \<open>cacheForEval\<close> succeeds exactly when the script is active and not
  cached (otherwise an assertion fails); it clears the active flag, sets the cached flag
  and clears \<open>hasRunOnce\<close>, and changes nothing else. \<open>uncacheForEval\<close> succeeds exactly
  when the script is cached and not active; it clears the cached flag and sets the active
  flag, and changes nothing else. The result of either has exclusive flags. From a state
  with exclusive flags (a new script is one), every run of the three operations that
  applies \<open>setActiveEval\<close> only to a script that is not cached ends with exclusive flags.
\<close>

theorem eval_cache_flags_exclusive:
  "(cacheForEval s = Inr s' \<longleftrightarrow>
      isActiveEval s \<and> \<not> isCachedEval s \<and>
      s' = s\<lparr>bitFields' := (bitFields' s)\<lparr>isActiveEval' := False, isCachedEval' := True,
                                               hasRunOnce' := False\<rparr>\<rparr>)
   \<and> (cacheForEval s = Inl AssertionFailure \<longleftrightarrow> \<not> (isActiveEval s \<and> \<not> isCachedEval s))
   \<and> (uncacheForEval s = Inr s'' \<longleftrightarrow>
      isCachedEval s \<and> \<not> isActiveEval s \<and>
      s'' = s\<lparr>bitFields' := (bitFields' s)\<lparr>isCachedEval' := False, isActiveEval' := True\<rparr>\<rparr>)
   \<and> (uncacheForEval s = Inl AssertionFailure \<longleftrightarrow> \<not> (isCachedEval s \<and> \<not> isActiveEval s))
   \<and> (cacheForEval s = Inr s' \<longrightarrow>
        \<not> isActiveEval s' \<and> isCachedEval s' \<and> \<not> hasRunOnce s' \<and> eval_flags_exclusive s')
   \<and> (uncacheForEval s = Inr s'' \<longrightarrow>
        isActiveEval s'' \<and> \<not> isCachedEval s'' \<and> hasRunOnce s'' = hasRunOnce s \<and>
        eval_flags_exclusive s'')
   \<and> (eval_flags_exclusive t \<and> disciplined ops t \<and> eval_run ops t = Inr t' \<longrightarrow>
        eval_flags_exclusive t')
   \<and> eval_flags_exclusive JSScript_new"
proof -
  have a: "cacheForEval s = Inl AssertionFailure \<longleftrightarrow> \<not> (isActiveEval s \<and> \<not> isCachedEval s)"
    using cacheForEval_fails [of s AssertionFailure] by simp
  have b: "uncacheForEval s = Inl AssertionFailure \<longleftrightarrow> \<not> (isCachedEval s \<and> \<not> isActiveEval s)"
    using uncacheForEval_fails [of s AssertionFailure] by simp
  have c: "cacheForEval s = Inr s' \<longrightarrow>
        \<not> isActiveEval s' \<and> isCachedEval s' \<and> \<not> hasRunOnce s' \<and> eval_flags_exclusive s'"
    by (auto simp: cacheForEval_iff isActiveEval_def isCachedEval_def hasRunOnce_def
        eval_flags_exclusive_def)
  have d: "uncacheForEval s = Inr s'' \<longrightarrow>
        isActiveEval s'' \<and> \<not> isCachedEval s'' \<and> hasRunOnce s'' = hasRunOnce s \<and>
        eval_flags_exclusive s''"
    by (auto simp: uncacheForEval_iff isActiveEval_def isCachedEval_def hasRunOnce_def
        eval_flags_exclusive_def)
  have e: "eval_flags_exclusive t \<and> disciplined ops t \<and> eval_run ops t = Inr t' \<longrightarrow>
        eval_flags_exclusive t'"
    using eval_run_exclusive [of t ops t'] by blast
  have f: "eval_flags_exclusive JSScript_new"
    by (simp add: eval_flags_exclusive_def isActiveEval_def isCachedEval_def JSScript_new_def
        BitFields_zero_def)
  from cacheForEval_iff [of s s'] uncacheForEval_iff [of s s''] a b c d e f
  show ?thesis by blast
qed

theorem eval_cache_flags_exclusive_witness:
  "cacheForEval (JSScript_new\<lparr>bitFields' := BitFields_zero\<lparr>isActiveEval' := True,
       hasRunOnce' := True\<rparr>\<rparr>)
     = Inr (JSScript_new\<lparr>bitFields' := BitFields_zero\<lparr>isCachedEval' := True\<rparr>\<rparr>)
   \<and> uncacheForEval (JSScript_new\<lparr>bitFields' := BitFields_zero\<lparr>isActiveEval' := True,
       hasRunOnce' := True\<rparr>\<rparr>) = Inl AssertionFailure
   \<and> eval_flags_exclusive JSScript_new
   \<and> disciplined [SetActiveEval, CacheForEval, UncacheForEval] JSScript_new
   \<and> eval_run [SetActiveEval, CacheForEval, UncacheForEval] JSScript_new
       = Inr (JSScript_new\<lparr>bitFields' := BitFields_zero\<lparr>isActiveEval' := True\<rparr>\<rparr>)
   \<and> eval_flags_exclusive (JSScript_new\<lparr>bitFields' := BitFields_zero\<lparr>isActiveEval' := True\<rparr>\<rparr>)"
proof -
  have r: "eval_run [SetActiveEval, CacheForEval, UncacheForEval] JSScript_new
       = Inr (JSScript_new\<lparr>bitFields' := BitFields_zero\<lparr>isActiveEval' := True\<rparr>\<rparr>)"
    by (simp add: JSScript_new_def BitFields_zero_def setActiveEval_def cacheForEval_def
        uncacheForEval_def isActiveEval_def isCachedEval_def)
  have d: "disciplined [SetActiveEval, CacheForEval, UncacheForEval] JSScript_new"
    by (simp add: JSScript_new_def BitFields_zero_def setActiveEval_def cacheForEval_def
        uncacheForEval_def isActiveEval_def isCachedEval_def)
  have c: "cacheForEval (JSScript_new\<lparr>bitFields' := BitFields_zero\<lparr>isActiveEval' := True,
       hasRunOnce' := True\<rparr>\<rparr>)
     = Inr (JSScript_new\<lparr>bitFields' := BitFields_zero\<lparr>isCachedEval' := True\<rparr>\<rparr>)"
    by (simp add: JSScript_new_def BitFields_zero_def cacheForEval_def isActiveEval_def
        isCachedEval_def)
  show ?thesis
    using eval_cache_flags_exclusive [where
        s = "JSScript_new\<lparr>bitFields' := BitFields_zero\<lparr>isActiveEval' := True,
          hasRunOnce' := True\<rparr>\<rparr>"
        and s' = "JSScript_new\<lparr>bitFields' := BitFields_zero\<lparr>isCachedEval' := True\<rparr>\<rparr>"
        and t = JSScript_new and ops = "[SetActiveEval, CacheForEval, UncacheForEval]"
        and t' = "JSScript_new\<lparr>bitFields' := BitFields_zero\<lparr>isActiveEval' := True\<rparr>\<rparr>"]
      r d c
    by (simp add: isActiveEval_def isCachedEval_def)
qed

section \<open>Properties of pins and deferred compression\<close>

lemma pin_valid_fields:
  "data src' = data src \<Longrightarrow> pin_valid src' p = pin_valid src p"
  by (simp add: pin_valid_def split: units_ptr.splits SourceType.splits)

lemma pin_new_valid:
  "hasSourceText src \<Longrightarrow> pin_valid src \<lparr>units' = UnitsIn (data src) start, pin_len = len\<rparr>"
  by (cases "data src")
     (simp_all add: pin_valid_def hasSourceText_def hasUncompressedSource_def
        hasCompressedSource_def)

lemma setCompressedSource_data:
  "pinnedUnitsStack' src \<noteq> [] \<Longrightarrow> data (setCompressedSource c src) = data src"
  by (simp add: setCompressedSource_def)

lemma setCompressedSource_stack:
  "pinnedUnitsStack' (setCompressedSource c src) = pinnedUnitsStack' src"
  by (simp add: setCompressedSource_def)

lemma fromTask_cases:
  assumes "setCompressedSourceFromTask raw src = Inr src'"
  shows "\<exists>c. src' = setCompressedSource c src"
  using assms
  by (auto simp: setCompressedSourceFromTask_def split: SourceType.splits sum.splits)

lemma movePending_stack:
  "pinnedUnitsStack' (movePendingCompressedSource src) = pinnedUnitsStack' src"
  by (simp add: movePendingCompressedSource_def split: option.splits)

lemma source_step_stack:
  assumes "source_step opr src = Inr src'"
  shows "pinnedUnitsStack' src' = pinnedUnitsStack' src
       \<or> (\<exists>p. pinnedUnitsStack' src' = p # pinnedUnitsStack' src)
       \<or> (\<exists>p. pinnedUnitsStack' src = p # pinnedUnitsStack' src')"
proof (cases opr)
  case (Pin start len)
  then show ?thesis using assms by (auto simp: pin_def split: if_splits)
next
  case Unpin
  then show ?thesis
    using assms by (auto simp: unpin_def Let_def movePending_stack split: list.splits if_splits)
next
  case (CompressionDone raw)
  then show ?thesis
    using assms fromTask_cases [of raw src src'] by (auto simp: setCompressedSource_stack)
qed

lemma pin_Inr:
  assumes "pin start len src = Inr src'"
  shows "hasSourceText src \<and>
         src' = src\<lparr>pinnedUnitsStack' :=
                  \<lparr>units' = UnitsIn (data src) start, pin_len = len\<rparr> # pinnedUnitsStack' src\<rparr>"
  using assms by (cases "hasSourceText src") (simp_all add: pin_def)

lemma unpin_Inr:
  assumes "unpin src = Inr src'"
  shows "\<exists>p prev. pinnedUnitsStack' src = p # prev \<and> pinnedUnitsStack' src' = prev \<and>
           (prev \<noteq> [] \<longrightarrow> src' = src\<lparr>pinnedUnitsStack' := prev\<rparr>)"
proof (cases "pinnedUnitsStack' src")
  case Nil
  then show ?thesis using assms by (simp add: unpin_def)
next
  case (Cons p prev)
  show ?thesis
  proof (cases "prev = []")
    case True
    then have "src' = movePendingCompressedSource (src\<lparr>pinnedUnitsStack' := []\<rparr>)"
      using assms Cons by (simp add: unpin_def)
    then have "pinnedUnitsStack' src' = []" by (simp add: movePending_stack)
    then show ?thesis using Cons True by simp
  next
    case False
    then have "src' = src\<lparr>pinnedUnitsStack' := prev\<rparr>"
      using assms Cons by (simp add: unpin_def)
    then show ?thesis using Cons by simp
  qed
qed

lemma source_step_data:
  assumes "source_step opr src = Inr src'" and "pinnedUnitsStack' src' \<noteq> []"
  shows "data src' = data src"
proof (cases opr)
  case (Pin start len)
  then have "pin start len src = Inr src'" using assms(1) by simp
  from pin_Inr [OF this] show ?thesis by simp
next
  case Unpin
  then have "unpin src = Inr src'" using assms(1) by simp
  from unpin_Inr [OF this] obtain p prev where
    u: "pinnedUnitsStack' src = p # prev" "pinnedUnitsStack' src' = prev"
      "prev \<noteq> [] \<longrightarrow> src' = src\<lparr>pinnedUnitsStack' := prev\<rparr>"
    by blast
  have "prev \<noteq> []" using u(2) assms(2) by simp
  then have "src' = src\<lparr>pinnedUnitsStack' := prev\<rparr>" using u(3) by simp
  then show ?thesis by simp
next
  case (CompressionDone raw)
  then have "setCompressedSourceFromTask raw src = Inr src'" using assms(1) by simp
  from fromTask_cases [OF this] obtain c where c: "src' = setCompressedSource c src" ..
  then have "pinnedUnitsStack' src \<noteq> []" using assms(2) by (simp add: setCompressedSource_stack)
  then show ?thesis using c by (simp add: setCompressedSource_data)
qed

lemma source_step_push:
  assumes "source_step opr src = Inr src'" and "pinnedUnitsStack' src' = p # pinnedUnitsStack' src"
  shows "hasSourceText src \<and> (\<exists>start len. p = \<lparr>units' = UnitsIn (data src) start, pin_len = len\<rparr>)"
proof (cases opr)
  case (Pin start len)
  then have "pin start len src = Inr src'" using assms(1) by simp
  from pin_Inr [OF this] show ?thesis using assms(2) by auto
next
  case Unpin
  then have "unpin src = Inr src'" using assms(1) by simp
  from unpin_Inr [OF this] obtain q prev where
    "pinnedUnitsStack' src = q # prev" "pinnedUnitsStack' src' = prev" by blast
  then have "length (pinnedUnitsStack' src') < length (pinnedUnitsStack' src)" by simp
  then show ?thesis using assms(2) by simp
next
  case (CompressionDone raw)
  then have "setCompressedSourceFromTask raw src = Inr src'" using assms(1) by simp
  from fromTask_cases [OF this] obtain c where "src' = setCompressedSource c src" ..
  then have "pinnedUnitsStack' src' = pinnedUnitsStack' src" by (simp add: setCompressedSource_stack)
  then show ?thesis using assms(2) by simp
qed

lemma source_step_pins_valid:
  assumes "pins_valid src" and "source_step opr src = Inr src'"
  shows "pins_valid src'"
proof (cases "pinnedUnitsStack' src' = []")
  case True
  then show ?thesis by (simp add: pins_valid_def)
next
  case False
  have d: "data src' = data src" using source_step_data [OF assms(2) False] .
  have old: "list_all (pin_valid src') (pinnedUnitsStack' src)"
    using assms(1) pin_valid_fields [OF d] by (simp add: pins_valid_def list_all_iff)
  from source_step_stack [OF assms(2)] show ?thesis
  proof (elim disjE exE)
    assume "pinnedUnitsStack' src' = pinnedUnitsStack' src"
    then show ?thesis using old by (simp add: pins_valid_def)
  next
    fix p assume p: "pinnedUnitsStack' src' = p # pinnedUnitsStack' src"
    from source_step_push [OF assms(2) p] obtain start len where
      h: "hasSourceText src" and pe: "p = \<lparr>units' = UnitsIn (data src) start, pin_len = len\<rparr>"
      by blast
    have "pin_valid src p" using pin_new_valid [OF h] pe by simp
    then have "pin_valid src' p" using pin_valid_fields [OF d] by simp
    then show ?thesis using old p by (simp add: pins_valid_def)
  next
    fix p assume "pinnedUnitsStack' src = p # pinnedUnitsStack' src'"
    then show ?thesis using old by (simp add: pins_valid_def)
  qed
qed

lemma source_run_pins_valid:
  "pins_valid src \<Longrightarrow> source_run ops src = Inr src' \<Longrightarrow> pins_valid src'"
proof (induction ops arbitrary: src)
  case Nil
  then show ?case by simp
next
  case (Cons opr ops)
  from Cons.prems(2) obtain s1 where s1: "source_step opr src = Inr s1" "source_run ops s1 = Inr src'"
    by (auto split: sum.splits)
  show ?case using Cons.IH [OF source_step_pins_valid [OF Cons.prems(1) s1(1)] s1(2)] .
qed

lemma fromTask_pinned:
  assumes "pinnedUnitsStack' src \<noteq> []"
  shows "data src = UncompressedUtf8 cs \<Longrightarrow>
           setCompressedSourceFromTask raw src =
             Inr (src\<lparr>pendingCompressed' := Some (CompressedUtf8 raw (length cs))\<rparr>)"
    and "data src = UncompressedUtf16 ws \<Longrightarrow>
           setCompressedSourceFromTask raw src =
             Inr (src\<lparr>pendingCompressed' := Some (CompressedUtf16 raw (length ws))\<rparr>)"
  using assms
  by (simp_all add: setCompressedSourceFromTask_def ScriptSource_length_def hasSourceText_def
      hasUncompressedSource_def setCompressedSource_def)

lemma unpin_bottom:
  "pinnedUnitsStack' src = [p] \<Longrightarrow> pendingCompressed' src = Some c \<Longrightarrow>
     unpin src = Inr (src\<lparr>pinnedUnitsStack' := [], data := c, pendingCompressed' := None\<rparr>)"
  by (simp add: unpin_def movePendingCompressedSource_def)

lemma unpin_inner:
  "pinnedUnitsStack' src = p # q # prev \<Longrightarrow>
     unpin src = Inr (src\<lparr>pinnedUnitsStack' := q # prev\<rparr>)"
  by (simp add: unpin_def)

lemma pin_compressed:
  "data src = CompressedUtf8 raw n \<or> data src = CompressedUtf16 raw n \<Longrightarrow>
     pin start len src =
       Inr (src\<lparr>pinnedUnitsStack' :=
              \<lparr>units' = UnitsIn (data src) start, pin_len = len\<rparr> # pinnedUnitsStack' src\<rparr>)"
  by (auto simp: pin_def hasSourceText_def hasCompressedSource_def)

text \<open>
  Claim C6. When a background compression completes while at least one pin is
  outstanding, the compressed text is stored as pending and the data of the source stay
  as they are. No event that leaves a pin outstanding changes the data, and the stack of
  pins only grows or shrinks at its top, so the pointer of an outstanding pin is never
  changed; hence in every state reached from one in which all pins are valid, all
  outstanding pins are valid. The release of the bottom pin installs the pending
  compressed text as the data; the release of any other pin changes only the stack. A
  pin taken on compressed data points into the compressed representation.
\<close>

theorem pin_safety:
  "(pinnedUnitsStack' src \<noteq> [] \<and> data src = UncompressedUtf8 cs \<longrightarrow>
      setCompressedSourceFromTask raw src =
        Inr (src\<lparr>pendingCompressed' := Some (CompressedUtf8 raw (length cs))\<rparr>))
   \<and> (pinnedUnitsStack' src \<noteq> [] \<and> data src = UncompressedUtf16 ws \<longrightarrow>
      setCompressedSourceFromTask raw src =
        Inr (src\<lparr>pendingCompressed' := Some (CompressedUtf16 raw (length ws))\<rparr>))
   \<and> (source_step opr src = Inr src' \<and> pinnedUnitsStack' src' \<noteq> [] \<longrightarrow> data src' = data src)
   \<and> (source_step opr src = Inr src' \<longrightarrow>
        pinnedUnitsStack' src' = pinnedUnitsStack' src
        \<or> (\<exists>p. pinnedUnitsStack' src' = p # pinnedUnitsStack' src)
        \<or> (\<exists>p. pinnedUnitsStack' src = p # pinnedUnitsStack' src'))
   \<and> (pins_valid src \<and> source_run ops src = Inr src'' \<longrightarrow> pins_valid src'')
   \<and> (pinnedUnitsStack' src = [p] \<and> pendingCompressed' src = Some c \<longrightarrow>
        unpin src = Inr (src\<lparr>pinnedUnitsStack' := [], data := c, pendingCompressed' := None\<rparr>))
   \<and> (pinnedUnitsStack' src = p # q # prev \<longrightarrow>
        unpin src = Inr (src\<lparr>pinnedUnitsStack' := q # prev\<rparr>))
   \<and> (data src = CompressedUtf8 raw' n \<or> data src = CompressedUtf16 raw' n \<longrightarrow>
        pin start len src =
          Inr (src\<lparr>pinnedUnitsStack' :=
                 \<lparr>units' = UnitsIn (data src) start, pin_len = len\<rparr> # pinnedUnitsStack' src\<rparr>))"
proof -
  have a: "pinnedUnitsStack' src \<noteq> [] \<and> data src = UncompressedUtf8 cs \<longrightarrow>
      setCompressedSourceFromTask raw src =
        Inr (src\<lparr>pendingCompressed' := Some (CompressedUtf8 raw (length cs))\<rparr>)"
    using fromTask_pinned(1) by blast
  have b: "pinnedUnitsStack' src \<noteq> [] \<and> data src = UncompressedUtf16 ws \<longrightarrow>
      setCompressedSourceFromTask raw src =
        Inr (src\<lparr>pendingCompressed' := Some (CompressedUtf16 raw (length ws))\<rparr>)"
    using fromTask_pinned(2) by blast
  have c: "source_step opr src = Inr src' \<and> pinnedUnitsStack' src' \<noteq> [] \<longrightarrow> data src' = data src"
    using source_step_data by blast
  have d: "source_step opr src = Inr src' \<longrightarrow>
        pinnedUnitsStack' src' = pinnedUnitsStack' src
        \<or> (\<exists>p. pinnedUnitsStack' src' = p # pinnedUnitsStack' src)
        \<or> (\<exists>p. pinnedUnitsStack' src = p # pinnedUnitsStack' src')"
    using source_step_stack by blast
  have e: "pins_valid src \<and> source_run ops src = Inr src'' \<longrightarrow> pins_valid src''"
    using source_run_pins_valid by blast
  have f: "pinnedUnitsStack' src = [p] \<and> pendingCompressed' src = Some c \<longrightarrow>
        unpin src = Inr (src\<lparr>pinnedUnitsStack' := [], data := c, pendingCompressed' := None\<rparr>)"
    using unpin_bottom by blast
  have g: "pinnedUnitsStack' src = p # q # prev \<longrightarrow>
        unpin src = Inr (src\<lparr>pinnedUnitsStack' := q # prev\<rparr>)"
    using unpin_inner by blast
  have h: "data src = CompressedUtf8 raw' n \<or> data src = CompressedUtf16 raw' n \<longrightarrow>
        pin start len src =
          Inr (src\<lparr>pinnedUnitsStack' :=
                 \<lparr>units' = UnitsIn (data src) start, pin_len = len\<rparr> # pinnedUnitsStack' src\<rparr>)"
    using pin_compressed by blast
  from a b c d e f g h show ?thesis by blast
qed

theorem pin_safety_witness:
  "pins_valid (ScriptSource_new\<lparr>data := UncompressedUtf8 [104, 105]\<rparr>)
   \<and> source_run [Pin 0 2, Pin 1 1, CompressionDone [120]]
         (ScriptSource_new\<lparr>data := UncompressedUtf8 [104, 105]\<rparr>)
       = Inr (ScriptSource_new\<lparr>data := UncompressedUtf8 [104, 105],
                pinnedUnitsStack' :=
                  [\<lparr>units' = UnitsIn (UncompressedUtf8 [104, 105]) 1, pin_len = 1\<rparr>,
                   \<lparr>units' = UnitsIn (UncompressedUtf8 [104, 105]) 0, pin_len = 2\<rparr>],
                pendingCompressed' := Some (CompressedUtf8 [120] 2)\<rparr>)
   \<and> pins_valid (ScriptSource_new\<lparr>data := UncompressedUtf8 [104, 105],
                pinnedUnitsStack' :=
                  [\<lparr>units' = UnitsIn (UncompressedUtf8 [104, 105]) 1, pin_len = 1\<rparr>,
                   \<lparr>units' = UnitsIn (UncompressedUtf8 [104, 105]) 0, pin_len = 2\<rparr>],
                pendingCompressed' := Some (CompressedUtf8 [120] 2)\<rparr>)
   \<and> source_run [Pin 0 2, Pin 1 1, CompressionDone [120], Unpin, Unpin, Pin 0 1]
         (ScriptSource_new\<lparr>data := UncompressedUtf8 [104, 105]\<rparr>)
       = Inr (ScriptSource_new\<lparr>data := CompressedUtf8 [120] 2,
                pinnedUnitsStack' :=
                  [\<lparr>units' = UnitsIn (CompressedUtf8 [120] 2) 0, pin_len = 1\<rparr>]\<rparr>)"
proof -
  let ?s = "ScriptSource_new\<lparr>data := UncompressedUtf8 [104, 105]\<rparr>"
  let ?m = "ScriptSource_new\<lparr>data := UncompressedUtf8 [104, 105],
                pinnedUnitsStack' :=
                  [\<lparr>units' = UnitsIn (UncompressedUtf8 [104, 105]) 1, pin_len = 1\<rparr>,
                   \<lparr>units' = UnitsIn (UncompressedUtf8 [104, 105]) 0, pin_len = 2\<rparr>],
                pendingCompressed' := Some (CompressedUtf8 [120] 2)\<rparr>"
  have v: "pins_valid ?s" by (simp add: pins_valid_def ScriptSource_new_def)
  have m: "source_run [Pin 0 2, Pin 1 1, CompressionDone [120]] ?s = Inr ?m"
    by (simp add: ScriptSource_new_def pin_def hasSourceText_def hasUncompressedSource_def
        setCompressedSourceFromTask_def ScriptSource_length_def setCompressedSource_def)
  have f: "source_run [Pin 0 2, Pin 1 1, CompressionDone [120], Unpin, Unpin, Pin 0 1] ?s
       = Inr (ScriptSource_new\<lparr>data := CompressedUtf8 [120] 2,
                pinnedUnitsStack' :=
                  [\<lparr>units' = UnitsIn (CompressedUtf8 [120] 2) 0, pin_len = 1\<rparr>]\<rparr>)"
    by (simp add: ScriptSource_new_def pin_def hasSourceText_def hasUncompressedSource_def
        hasCompressedSource_def setCompressedSourceFromTask_def ScriptSource_length_def
        setCompressedSource_def unpin_def movePendingCompressedSource_def)
  show ?thesis
    using pin_safety [where src = ?s and ops = "[Pin 0 2, Pin 1 1, CompressionDone [120]]"
        and src'' = ?m] v m f
    by simp
qed

section \<open>Properties of the enclosing reference\<close>

lemma not_both_kinds: "is_Scope cell \<Longrightarrow> \<not> is_LazyScript cell"
  by (cases cell) simp_all

lemma stub_not_scope: "hasEnclosingLazyScript lazy \<Longrightarrow> \<not> hasEnclosingScope lazy"
  using not_both_kinds
  by (auto simp: hasEnclosingLazyScript_def hasEnclosingScope_def split: option.splits)

lemma setEnclosingLazyScript_iff:
  "setEnclosingLazyScript e lazy = Inr lazy' \<longleftrightarrow>
     \<not> hasEnclosingLazyScript lazy \<and> \<not> hasEnclosingScope lazy \<and>
     lazy' = lazy\<lparr>enclosingLazyScriptOrScope' := Some (LazyScriptCell e)\<rparr>"
  by (auto simp: setEnclosingLazyScript_def)

lemma setEnclosingScope_iff:
  "setEnclosingScope sc lazy = Inr lazy' \<longleftrightarrow>
     \<not> hasEnclosingScope lazy \<and>
     lazy' = lazy\<lparr>enclosingLazyScriptOrScope' := Some (ScopeCell sc)\<rparr>"
  by (auto simp: setEnclosingScope_def)

lemma enclosing_step_rank:
  assumes "enclosing_step opr lazy = Inr lazy'"
  shows "enclosing_rank lazy < enclosing_rank lazy'"
proof (cases opr)
  case (SetEnclosingLazyScript e)
  then show ?thesis
    using assms
    by (auto simp: setEnclosingLazyScript_iff enclosing_rank_def hasEnclosingScope_def
        hasEnclosingLazyScript_def)
next
  case (SetEnclosingScope sc)
  then show ?thesis
    using assms
    by (auto simp: setEnclosingScope_iff enclosing_rank_def hasEnclosingScope_def
        hasEnclosingLazyScript_def)
qed

lemma scope_is_final:
  "hasEnclosingScope lazy \<Longrightarrow> enclosing_step opr lazy = Inl AssertionFailure"
  by (cases opr) (simp_all add: setEnclosingLazyScript_def setEnclosingScope_def)

lemma scope_run_final:
  assumes "hasEnclosingScope lazy" and "enclosing_run ops lazy = Inr lazy'"
  shows "ops = [] \<and> lazy' = lazy"
proof (cases ops)
  case Nil
  then show ?thesis using assms(2) by simp
next
  case (Cons opr rest)
  then show ?thesis using assms scope_is_final [OF assms(1), of opr] by simp
qed

lemma stub_run:
  assumes "enclosingLazyScriptOrScope' lazy = Some (LazyScriptCell e)"
    and "enclosing_run ops lazy = Inr lazy'"
  shows "(ops = [] \<and> lazy' = lazy) \<or>
         (\<exists>sc. ops = [SetEnclosingScope sc] \<and>
            lazy' = lazy\<lparr>enclosingLazyScriptOrScope' := Some (ScopeCell sc)\<rparr>)"
proof (cases ops)
  case Nil
  then show ?thesis using assms(2) by simp
next
  case (Cons opr rest)
  have stub: "hasEnclosingLazyScript lazy" "\<not> hasEnclosingScope lazy"
    using assms(1) by (simp_all add: hasEnclosingLazyScript_def hasEnclosingScope_def)
  from assms(2) Cons obtain l1 where l1: "enclosing_step opr lazy = Inr l1"
      "enclosing_run rest l1 = Inr lazy'"
    by (auto split: sum.splits)
  show ?thesis
  proof (cases opr)
    case (SetEnclosingLazyScript e')
    then show ?thesis using l1(1) stub by (simp add: setEnclosingLazyScript_def)
  next
    case (SetEnclosingScope sc)
    then have l1e: "l1 = lazy\<lparr>enclosingLazyScriptOrScope' := Some (ScopeCell sc)\<rparr>"
      using l1(1) by (simp add: setEnclosingScope_iff)
    then have "hasEnclosingScope l1" by (simp add: hasEnclosingScope_def)
    from scope_run_final [OF this l1(2)] show ?thesis
      using Cons SetEnclosingScope l1e by simp
  qed
qed

lemma null_run:
  assumes "enclosingLazyScriptOrScope' lazy = None"
    and "enclosing_run ops lazy = Inr lazy'"
  shows "(ops = [] \<and> lazy' = lazy)
       \<or> (\<exists>e. ops = [SetEnclosingLazyScript e] \<and>
             lazy' = lazy\<lparr>enclosingLazyScriptOrScope' := Some (LazyScriptCell e)\<rparr>)
       \<or> (\<exists>sc. ops = [SetEnclosingScope sc] \<and>
             lazy' = lazy\<lparr>enclosingLazyScriptOrScope' := Some (ScopeCell sc)\<rparr>)
       \<or> (\<exists>e sc. ops = [SetEnclosingLazyScript e, SetEnclosingScope sc] \<and>
             lazy' = lazy\<lparr>enclosingLazyScriptOrScope' := Some (ScopeCell sc)\<rparr>)"
proof (cases ops)
  case Nil
  then show ?thesis using assms(2) by simp
next
  case (Cons opr rest)
  from assms(2) Cons obtain l1 where l1: "enclosing_step opr lazy = Inr l1"
      "enclosing_run rest l1 = Inr lazy'"
    by (auto split: sum.splits)
  show ?thesis
  proof (cases opr)
    case (SetEnclosingLazyScript e)
    then have l1e: "l1 = lazy\<lparr>enclosingLazyScriptOrScope' := Some (LazyScriptCell e)\<rparr>"
      using l1(1) by (simp add: setEnclosingLazyScript_iff)
    then have "enclosingLazyScriptOrScope' l1 = Some (LazyScriptCell e)" by simp
    from stub_run [OF this l1(2)] show ?thesis
      using Cons SetEnclosingLazyScript l1e by auto
  next
    case (SetEnclosingScope sc)
    then have l1e: "l1 = lazy\<lparr>enclosingLazyScriptOrScope' := Some (ScopeCell sc)\<rparr>"
      using l1(1) by (simp add: setEnclosingScope_iff)
    then have "hasEnclosingScope l1" by (simp add: hasEnclosingScope_def)
    from scope_run_final [OF this l1(2)] show ?thesis
      using Cons SetEnclosingScope l1e by simp
  qed
qed

text \<open>
  Claim C7, as stated, fails in its last part: a call made after the other setter has
  succeeded is not always an assertion failure. \<open>setEnclosingScope\<close> after a successful
  \<open>setEnclosingLazyScript\<close> succeeds; it is the transition from the enclosing lazy script
  to the enclosing scope.
\<close>

theorem enclosing_second_call_counterexample:
  "setEnclosingLazyScript 4096 LazyScript_new
     = Inr (LazyScript_new\<lparr>enclosingLazyScriptOrScope' := Some (LazyScriptCell 4096)\<rparr>)
   \<and> setEnclosingScope 8192
       (LazyScript_new\<lparr>enclosingLazyScriptOrScope' := Some (LazyScriptCell 4096)\<rparr>)
     = Inr (LazyScript_new\<lparr>enclosingLazyScriptOrScope' := Some (ScopeCell 8192)\<rparr>)
   \<and> enclosing_run [SetEnclosingLazyScript 4096, SetEnclosingScope 8192] LazyScript_new
     = Inr (LazyScript_new\<lparr>enclosingLazyScriptOrScope' := Some (ScopeCell 8192)\<rparr>)"
  by (simp add: LazyScript_new_def setEnclosingLazyScript_def setEnclosingScope_def
      hasEnclosingLazyScript_def hasEnclosingScope_def)

text \<open>
  Claim C7, amended. From the null state the only runs of the two setters that succeed
  are: no call; one \<open>setEnclosingLazyScript\<close>; one \<open>setEnclosingScope\<close>; and
  \<open>setEnclosingLazyScript\<close> followed by \<open>setEnclosingScope\<close>. So the reference is always
  null, an enclosing lazy script or an enclosing scope, each setter succeeds at most
  once, and every successful call moves the reference forward (null to lazy script, null
  to scope, lazy script to scope). Once a scope is set every further call of either
  setter is an assertion failure; with a lazy script set, \<open>setEnclosingLazyScript\<close> is an
  assertion failure and \<open>setEnclosingScope\<close> succeeds.
\<close>

theorem enclosing_monotonic:
  "(enclosingLazyScriptOrScope' lazy0 = None \<and> enclosing_run ops lazy0 = Inr lazy \<longrightarrow>
      (ops = [] \<and> lazy = lazy0)
      \<or> (\<exists>e. ops = [SetEnclosingLazyScript e] \<and>
            lazy = lazy0\<lparr>enclosingLazyScriptOrScope' := Some (LazyScriptCell e)\<rparr>)
      \<or> (\<exists>sc. ops = [SetEnclosingScope sc] \<and>
            lazy = lazy0\<lparr>enclosingLazyScriptOrScope' := Some (ScopeCell sc)\<rparr>)
      \<or> (\<exists>e sc. ops = [SetEnclosingLazyScript e, SetEnclosingScope sc] \<and>
            lazy = lazy0\<lparr>enclosingLazyScriptOrScope' := Some (ScopeCell sc)\<rparr>))
   \<and> (enclosing_step opr l = Inr l' \<longrightarrow> enclosing_rank l < enclosing_rank l')
   \<and> (hasEnclosingScope l \<longrightarrow> enclosing_step opr l = Inl AssertionFailure)
   \<and> (hasEnclosingLazyScript l \<longrightarrow>
        setEnclosingLazyScript a l = Inl AssertionFailure \<and>
        setEnclosingScope a l = Inr (l\<lparr>enclosingLazyScriptOrScope' := Some (ScopeCell a)\<rparr>))
   \<and> (enclosingLazyScriptOrScope' l = None \<longrightarrow>
        setEnclosingLazyScript a l = Inr (l\<lparr>enclosingLazyScriptOrScope' := Some (LazyScriptCell a)\<rparr>) \<and>
        setEnclosingScope a l = Inr (l\<lparr>enclosingLazyScriptOrScope' := Some (ScopeCell a)\<rparr>))
   \<and> enclosingScriptHasEverBeenCompiled l = hasEnclosingScope l"
proof -
  have a: "enclosingLazyScriptOrScope' lazy0 = None \<and> enclosing_run ops lazy0 = Inr lazy \<longrightarrow>
      (ops = [] \<and> lazy = lazy0)
      \<or> (\<exists>e. ops = [SetEnclosingLazyScript e] \<and>
            lazy = lazy0\<lparr>enclosingLazyScriptOrScope' := Some (LazyScriptCell e)\<rparr>)
      \<or> (\<exists>sc. ops = [SetEnclosingScope sc] \<and>
            lazy = lazy0\<lparr>enclosingLazyScriptOrScope' := Some (ScopeCell sc)\<rparr>)
      \<or> (\<exists>e sc. ops = [SetEnclosingLazyScript e, SetEnclosingScope sc] \<and>
            lazy = lazy0\<lparr>enclosingLazyScriptOrScope' := Some (ScopeCell sc)\<rparr>)"
    using null_run [of lazy0 ops lazy] by blast
  have b: "enclosing_step opr l = Inr l' \<longrightarrow> enclosing_rank l < enclosing_rank l'"
    using enclosing_step_rank by blast
  have c: "hasEnclosingScope l \<longrightarrow> enclosing_step opr l = Inl AssertionFailure"
    using scope_is_final by blast
  have d: "hasEnclosingLazyScript l \<longrightarrow>
        setEnclosingLazyScript a l = Inl AssertionFailure \<and>
        setEnclosingScope a l = Inr (l\<lparr>enclosingLazyScriptOrScope' := Some (ScopeCell a)\<rparr>)"
    using stub_not_scope [of l] by (auto simp: setEnclosingLazyScript_def setEnclosingScope_def)
  have e: "enclosingLazyScriptOrScope' l = None \<longrightarrow>
        setEnclosingLazyScript a l = Inr (l\<lparr>enclosingLazyScriptOrScope' := Some (LazyScriptCell a)\<rparr>) \<and>
        setEnclosingScope a l = Inr (l\<lparr>enclosingLazyScriptOrScope' := Some (ScopeCell a)\<rparr>)"
    by (simp add: setEnclosingLazyScript_def setEnclosingScope_def hasEnclosingLazyScript_def
        hasEnclosingScope_def)
  have f: "enclosingScriptHasEverBeenCompiled l = hasEnclosingScope l"
    by (simp add: enclosingScriptHasEverBeenCompiled_def)
  from a b c d e f show ?thesis by blast
qed

theorem enclosing_monotonic_witness:
  "enclosingLazyScriptOrScope' LazyScript_new = None
   \<and> enclosing_run [SetEnclosingLazyScript 4096, SetEnclosingScope 8192] LazyScript_new
       = Inr (LazyScript_new\<lparr>enclosingLazyScriptOrScope' := Some (ScopeCell 8192)\<rparr>)
   \<and> hasEnclosingScope (LazyScript_new\<lparr>enclosingLazyScriptOrScope' := Some (ScopeCell 8192)\<rparr>)
   \<and> enclosing_step (SetEnclosingLazyScript 4096)
        (LazyScript_new\<lparr>enclosingLazyScriptOrScope' := Some (ScopeCell 8192)\<rparr>)
       = Inl AssertionFailure
   \<and> enclosing_step (SetEnclosingScope 12288)
        (LazyScript_new\<lparr>enclosingLazyScriptOrScope' := Some (ScopeCell 8192)\<rparr>)
       = Inl AssertionFailure"
proof -
  have r: "enclosing_run [SetEnclosingLazyScript 4096, SetEnclosingScope 8192] LazyScript_new
       = Inr (LazyScript_new\<lparr>enclosingLazyScriptOrScope' := Some (ScopeCell 8192)\<rparr>)"
    by (simp add: LazyScript_new_def setEnclosingLazyScript_def setEnclosingScope_def
      hasEnclosingLazyScript_def hasEnclosingScope_def)
  have h: "hasEnclosingScope (LazyScript_new\<lparr>enclosingLazyScriptOrScope' := Some (ScopeCell 8192)\<rparr>)"
    by (simp add: hasEnclosingScope_def)
  show ?thesis
    using r h
      enclosing_monotonic [where l = "LazyScript_new\<lparr>enclosingLazyScriptOrScope' := Some (ScopeCell 8192)\<rparr>"
        and opr = "SetEnclosingLazyScript 4096"]
      enclosing_monotonic [where l = "LazyScript_new\<lparr>enclosingLazyScriptOrScope' := Some (ScopeCell 8192)\<rparr>"
        and opr = "SetEnclosingScope 12288"]
    by (simp add: LazyScript_new_def)
qed

section \<open>Properties of delazification\<close>

lemma delazify_result:
  assumes "delazify compiled lazy = Inr (script, lazy')"
  shows "script \<noteq> nullptr \<and> hasScript lazy' \<and> maybeScript lazy' = script"
  using assms
  by (auto simp: delazify_def hasScript_def maybeScript_def initScript_def split: if_splits)

lemma delazify_again:
  assumes "hasScript lazy"
  shows "delazify compiled lazy = Inr (maybeScript lazy, lazy)"
  using assms by (simp add: delazify_def)

lemma delazify_twice:
  assumes "delazify compiled lazy = Inr (script, lazy')"
  shows "delazify compiled' lazy' = Inr (script, lazy')"
  using delazify_result [OF assms] delazify_again [of lazy' compiled'] by simp

lemma sweep_alive:
  "is_alive (script' lazy) \<Longrightarrow> sweep is_alive lazy = lazy"
  by (simp add: sweep_def)

lemma sweep_dead:
  "script' lazy \<noteq> nullptr \<Longrightarrow> \<not> is_alive (script' lazy) \<Longrightarrow> \<not> hasScript (sweep is_alive lazy)"
  by (simp add: sweep_def hasScript_def)

text \<open>
  Claim C8. A successful delazification returns a script that is not null and leaves
  the lazy script with \<open>hasScript\<close> true and \<open>maybeScript\<close> equal to the script returned;
  a second delazification then returns the same script and the same lazy script,
  whatever a fresh compile would yield (also when it would fail), so nothing is
  recompiled. This still holds after a sweep that finds the script alive; after a sweep
  that finds it dead the weak pointer is cleared and a delazification compiles again.
\<close>

theorem delazify_idempotent:
  "(delazify compiled lazy = Inr (script, lazy') \<longrightarrow>
      script \<noteq> nullptr \<and> hasScript lazy' \<and> maybeScript lazy' = script \<and>
      delazify compiled' lazy' = Inr (script, lazy'))
   \<and> (\<not> hasScript lazy \<and> compiled \<noteq> nullptr \<longrightarrow>
        delazify compiled lazy = Inr (compiled, lazy\<lparr>script' := compiled\<rparr>))
   \<and> (\<not> hasScript lazy \<and> compiled = nullptr \<longrightarrow> delazify compiled lazy = Inl AllocError)
   \<and> (delazify compiled lazy = Inr (script, lazy') \<and> is_alive script \<longrightarrow>
        delazify compiled' (sweep is_alive lazy') = Inr (script, lazy'))
   \<and> (delazify compiled lazy = Inr (script, lazy') \<and> \<not> is_alive script \<and> compiled' \<noteq> nullptr \<longrightarrow>
        delazify compiled' (sweep is_alive lazy') = Inr (compiled', lazy'\<lparr>script' := compiled'\<rparr>))"
proof -
  have a: "delazify compiled lazy = Inr (script, lazy') \<longrightarrow>
      script \<noteq> nullptr \<and> hasScript lazy' \<and> maybeScript lazy' = script \<and>
      delazify compiled' lazy' = Inr (script, lazy')"
    using delazify_result [of compiled lazy script lazy']
      delazify_twice [of compiled lazy script lazy' compiled'] by blast
  have b: "\<not> hasScript lazy \<and> compiled \<noteq> nullptr \<longrightarrow>
        delazify compiled lazy = Inr (compiled, lazy\<lparr>script' := compiled\<rparr>)"
    by (simp add: delazify_def initScript_def)
  have c: "\<not> hasScript lazy \<and> compiled = nullptr \<longrightarrow> delazify compiled lazy = Inl AllocError"
    by (simp add: delazify_def)
  have d: "delazify compiled lazy = Inr (script, lazy') \<and> is_alive script \<longrightarrow>
        delazify compiled' (sweep is_alive lazy') = Inr (script, lazy')"
  proof (intro impI)
    assume h: "delazify compiled lazy = Inr (script, lazy') \<and> is_alive script"
    then have r: "maybeScript lazy' = script"
      using delazify_result [of compiled lazy script lazy'] by simp
    then have "sweep is_alive lazy' = lazy'"
      using h sweep_alive [of is_alive lazy'] by (simp add: maybeScript_def)
    moreover have "delazify compiled' lazy' = Inr (script, lazy')"
      using h delazify_twice [of compiled lazy script lazy' compiled'] by simp
    ultimately show "delazify compiled' (sweep is_alive lazy') = Inr (script, lazy')"
      by simp
  qed
  have e: "delazify compiled lazy = Inr (script, lazy') \<and> \<not> is_alive script \<and> compiled' \<noteq> nullptr \<longrightarrow>
        delazify compiled' (sweep is_alive lazy') = Inr (compiled', lazy'\<lparr>script' := compiled'\<rparr>)"
  proof (intro impI)
    assume h: "delazify compiled lazy = Inr (script, lazy') \<and> \<not> is_alive script \<and> compiled' \<noteq> nullptr"
    then have r: "script' lazy' = script" "script \<noteq> nullptr"
      using delazify_result [of compiled lazy script lazy'] by (simp_all add: maybeScript_def)
    then have "sweep is_alive lazy' = lazy'\<lparr>script' := nullptr\<rparr>"
      using h by (simp add: sweep_def)
    then show "delazify compiled' (sweep is_alive lazy') = Inr (compiled', lazy'\<lparr>script' := compiled'\<rparr>)"
      using h by (simp add: delazify_def hasScript_def initScript_def)
  qed
  from a b c d e show ?thesis by blast
qed

theorem delazify_idempotent_witness:
  "delazify 4096 LazyScript_new = Inr (4096, LazyScript_new\<lparr>script' := 4096\<rparr>)
   \<and> hasScript (LazyScript_new\<lparr>script' := 4096\<rparr>)
   \<and> maybeScript (LazyScript_new\<lparr>script' := 4096\<rparr>) = 4096
   \<and> delazify 8192 (LazyScript_new\<lparr>script' := 4096\<rparr>) = Inr (4096, LazyScript_new\<lparr>script' := 4096\<rparr>)"
proof -
  have f: "delazify 4096 LazyScript_new = Inr (4096, LazyScript_new\<lparr>script' := 4096\<rparr>)"
    by (simp add: delazify_def hasScript_def LazyScript_new_def nullptr_def initScript_def)
  have "delazify 4096 LazyScript_new = Inr (4096, LazyScript_new\<lparr>script' := 4096\<rparr>) \<longrightarrow>
      (4096 :: ptr) \<noteq> nullptr \<and> hasScript (LazyScript_new\<lparr>script' := 4096\<rparr>) \<and>
      maybeScript (LazyScript_new\<lparr>script' := 4096\<rparr>) = 4096 \<and>
      delazify 8192 (LazyScript_new\<lparr>script' := 4096\<rparr>) = Inr (4096, LazyScript_new\<lparr>script' := 4096\<rparr>)"
    using delazify_idempotent [where compiled = 4096 and lazy = LazyScript_new
        and script = 4096 and lazy' = "LazyScript_new\<lparr>script' := 4096\<rparr>"
        and compiled' = 8192]
    by (rule conjunct1)
  with f show ?thesis by blast
qed

end
